theory Spec2Isabelle
  imports Main "HOL-Library.Sublist"
begin

section \<open>Python strings\<close>

text \<open>
  A Python \<open>str\<close> is modelled as a \<open>string\<close>; one \<open>char\<close> stands for one code point,
  so the model covers the code points below 256. On those, \<open>str.isspace\<close> (which is also
  what \<open>str.strip()\<close> removes and what the regular expression class \<open>\s\<close> matches on a
  \<open>str\<close> pattern) holds for 9..13, 28..32, 133 and 160.
\<close>

definition is_space :: "char \<Rightarrow> bool" where
  "is_space c = (let n = (of_char c :: nat) in
     (9 \<le> n \<and> n \<le> 13) \<or> (28 \<le> n \<and> n \<le> 32) \<or> n = 133 \<or> n = 160)"

definition is_ascii_upper :: "char \<Rightarrow> bool" where
  "is_ascii_upper c = (let n = (of_char c :: nat) in 65 \<le> n \<and> n \<le> 90)"

definition is_ascii_lower :: "char \<Rightarrow> bool" where
  "is_ascii_lower c = (let n = (of_char c :: nat) in 97 \<le> n \<and> n \<le> 122)"

definition is_ascii_digit :: "char \<Rightarrow> bool" where
  "is_ascii_digit c = (let n = (of_char c :: nat) in 48 \<le> n \<and> n \<le> 57)"

definition newline :: char where
  "newline = CHR 0x0A"

definition backslash :: char where
  "backslash = CHR 0x5C"

definition hyphen :: char where
  "hyphen = CHR ''-''"

text \<open>\<open>str.lower()\<close> on one code point below 256: A..Z and the Latin-1 capitals
  (192..222 without the multiplication sign 215) move up by 32.\<close>

definition lower_char :: "char \<Rightarrow> char" where
  "lower_char c = (let n = (of_char c :: nat) in
     if (65 \<le> n \<and> n \<le> 90) \<or> (192 \<le> n \<and> n \<le> 222 \<and> n \<noteq> 215)
     then char_of (n + 32) else c)"

definition lower :: "string \<Rightarrow> string" where
  "lower s = map lower_char s"

text \<open>\<open>s.startswith(p)\<close>\<close>

definition startswith :: "string \<Rightarrow> string \<Rightarrow> bool" where
  "startswith s p = (take (length p) s = p)"

text \<open>\<open>s.strip()\<close>, \<open>s.strip('-')\<close>\<close>

definition strip_chars :: "(char \<Rightarrow> bool) \<Rightarrow> string \<Rightarrow> string" where
  "strip_chars P s = rev (dropWhile P (rev (dropWhile P s)))"

definition strip :: "string \<Rightarrow> string" where
  "strip s = strip_chars is_space s"

text \<open>\<open>s.find(sep)\<close>: the index of the first occurrence of \<open>sep\<close>, if any.\<close>

fun find_str :: "string \<Rightarrow> string \<Rightarrow> nat option" where
  "find_str sep [] = (if sep = [] then Some 0 else None)"
| "find_str sep (c # cs) =
     (if startswith (c # cs) sep then Some 0 else map_option Suc (find_str sep cs))"

text \<open>
  \<open>s.split(sep, maxsplit)\<close> for a non-empty separator; \<open>None\<close> is Python's default of
  no limit. Every call in the source passes a non-empty literal, so the \<open>ValueError\<close> of
  the empty separator cannot occur; the model returns \<open>[s]\<close> there.
\<close>

function split_str :: "string \<Rightarrow> nat option \<Rightarrow> string \<Rightarrow> string list" where
  "split_str sep k s =
     (if sep = [] \<or> k = Some 0 then [s]
      else (case find_str sep s of
              None \<Rightarrow> [s]
            | Some i \<Rightarrow> take i s # split_str sep (map_option (\<lambda>n. n - 1) k)
                                              (drop (i + length sep) s)))"
  by pat_completeness auto

lemma find_str_bound: "find_str sep s = Some i \<Longrightarrow> i + length sep \<le> length s"
proof (induction s arbitrary: i)
  case Nil
  then show ?case by (simp split: if_splits)
next
  case (Cons c cs)
  show ?case
  proof (cases "startswith (c # cs) sep")
    case True
    then have "length (take (length sep) (c # cs)) = length sep"
      by (simp add: startswith_def)
    then have "length sep \<le> length (c # cs)"
      by simp
    with True Cons.prems show ?thesis by simp
  next
    case False
    with Cons.prems obtain j where "find_str sep cs = Some j" "i = Suc j" by auto
    with Cons.IH show ?thesis by fastforce
  qed
qed

termination split_str
proof (relation "measure (\<lambda>(sep, k, s). length s)")
  show "wf (measure (\<lambda>(sep, k, s). length s))" by simp
next
  fix sep :: string and k :: "nat option" and s :: string and i :: nat
  assume "\<not> (sep = [] \<or> k = Some 0)" and "find_str sep s = Some i"
  then have "i + length sep \<le> length s" and "0 < length sep"
    using find_str_bound by auto
  then show "((sep, map_option (\<lambda>n. n - 1) k, drop (i + length sep) s), (sep, k, s))
      \<in> measure (\<lambda>(sep, k, s). length s)"
    by (cases sep) auto
qed

text \<open>\<open>sep.join(xs)\<close>\<close>

fun join :: "string \<Rightarrow> string list \<Rightarrow> string" where
  "join sep [] = []"
| "join sep [x] = x"
| "join sep (x # y # ys) = x @ sep @ join sep (y # ys)"

text \<open>\<open>s.replace(old, new)\<close> for a non-empty \<open>old\<close> (the source passes a literal).\<close>

function replace :: "string \<Rightarrow> string \<Rightarrow> string \<Rightarrow> string" where
  "replace old new s =
     (if old = [] \<or> s = [] then s
      else if startswith s old then new @ replace old new (drop (length old) s)
      else hd s # replace old new (tl s))"
  by pat_completeness auto
termination
  by (relation "measure (\<lambda>(old, new, s). length s)") auto


declare split_str.simps [simp del]
declare replace.simps [simp del]

text \<open>\<open>str(n)\<close> for an integer, and zero padding as \<open>strftime\<close> does it.\<close>

definition digit_char :: "nat \<Rightarrow> char" where
  "digit_char d = ''0123456789'' ! (d mod 10)"

fun str_nat :: "nat \<Rightarrow> string" where
  "str_nat n = (if n < 10 then [digit_char n] else str_nat (n div 10) @ [digit_char n])"

declare str_nat.simps [simp del]

definition str_int :: "int \<Rightarrow> string" where
  "str_int i = (if i < 0 then CHR ''-'' # str_nat (nat (- i)) else str_nat (nat i))"

definition zfill :: "nat \<Rightarrow> string \<Rightarrow> string" where
  "zfill w s = replicate (w - length s) (CHR ''0'') @ s"

text \<open>\<open>xs[i]\<close> for a non-negative index: out of range is an \<open>IndexError\<close>.\<close>

datatype error = IndexError | Exception string

definition item :: "'a list \<Rightarrow> nat \<Rightarrow> error + 'a" where
  "item xs i = (if i < length xs then Inr (xs ! i) else Inl IndexError)"

section \<open>Response parser: \<open>BlogEngine._extract_meta_description\<close>\<close>

definition meta_tag :: string where
  "meta_tag = ''META_DESCRIPTION:''"

text \<open>The loop of the fallback path: the first line that is not blank and does not
  start with \<open>#\<close>, stripped; the empty string when there is none.\<close>

fun first_paragraph :: "string list \<Rightarrow> string" where
  "first_paragraph [] = []"
| "first_paragraph (line # lines) =
     (if strip line \<noteq> [] \<and> \<not> startswith line ''#'' then strip line
      else first_paragraph lines)"

definition fallback_description :: "string \<Rightarrow> string \<times> string" where
  "fallback_description content =
     (let lines = split_str [newline] None content;
          first_paragraph = first_paragraph lines;
          meta_description =
            (if 157 < length first_paragraph then take 157 first_paragraph @ ''...''
             else first_paragraph)
      in (meta_description, content))"

definition extract_meta_description :: "string \<Rightarrow> error + (string \<times> string)" where
  "extract_meta_description content =
     (if startswith content meta_tag then
        (let lines = split_str [newline] (Some 2) content in
         if 2 \<le> length lines then
           (case item lines 0 of
              Inl e \<Rightarrow> Inl e
            | Inr line0 \<Rightarrow>
                (let meta_description = strip (replace meta_tag [] line0);
                     clean_content = strip (join [newline] (drop 1 lines))
                 in Inr (meta_description, clean_content)))
         else Inr (fallback_description content))
      else Inr (fallback_description content))"

section \<open>File names: \<open>BlogEngine._save_blog_post\<close> and \<open>utils.safe_filename\<close>\<close>

text \<open>
  \<open>re.sub(r'[^a-zA-Z0-9\\s-]', '', title)\<close>. The pattern is a raw string, so its two
  backslashes are two characters: the class holds a-z, A-Z, 0-9, an escaped backslash,
  the letter s and the hyphen. Every other character, whitespace included, is removed.
\<close>

definition kept_by_engine :: "char \<Rightarrow> bool" where
  "kept_by_engine c =
     (is_ascii_lower c \<or> is_ascii_upper c \<or> is_ascii_digit c \<or> c = backslash
      \<or> c = CHR ''s'' \<or> c = hyphen)"

text \<open>
  \<open>re.sub(r'\\s+', '-', s)\<close>: the pattern is a backslash followed by one or more
  letters s; each leftmost, longest such run becomes one hyphen.
\<close>

function sub_backslash_s :: "string \<Rightarrow> string" where
  "sub_backslash_s [] = []"
| "sub_backslash_s (c # cs) =
     (if c = backslash \<and> startswith cs ''s''
      then hyphen # sub_backslash_s (dropWhile (\<lambda>x. x = CHR ''s'') cs)
      else c # sub_backslash_s cs)"
  by pat_completeness auto
termination
  by (relation "measure length") (auto simp: less_Suc_eq_le length_dropWhile_le)

definition engine_slug :: "string \<Rightarrow> string" where
  "engine_slug title =
     (let filename = filter kept_by_engine title;
          filename = sub_backslash_s (strip filename);
          filename = take 50 (lower filename)
      in filename)"

text \<open>
  \<open>utils.safe_filename\<close>: \<open>re.sub(r'[^a-zA-Z0-9\s-]', '', text)\<close> keeps letters, digits,
  whitespace and the hyphen; \<open>re.sub(r'\s+', '-', s)\<close> turns each run of whitespace into
  one hyphen. \<open>max_length\<close> is a natural number here (the default is 50).
\<close>

definition kept_by_utils :: "char \<Rightarrow> bool" where
  "kept_by_utils c =
     (is_ascii_lower c \<or> is_ascii_upper c \<or> is_ascii_digit c \<or> is_space c \<or> c = hyphen)"

function sub_spaces :: "string \<Rightarrow> string" where
  "sub_spaces [] = []"
| "sub_spaces (c # cs) =
     (if is_space c then hyphen # sub_spaces (dropWhile is_space cs)
      else c # sub_spaces cs)"
  by pat_completeness auto
termination
  by (relation "measure length") (auto simp: less_Suc_eq_le length_dropWhile_le)

definition safe_filename :: "string \<Rightarrow> nat \<Rightarrow> string" where
  "safe_filename text max_length =
     (let filename = filter kept_by_utils text;
          filename = sub_spaces (strip filename);
          filename = take max_length (lower filename)
      in strip_chars (\<lambda>c. c = hyphen) filename)"


section \<open>Fallback HTML conversion: \<open>BlogEngine._simple_markdown_to_html\<close>\<close>

text \<open>The front matter test shared by both converters: a leading \<open>---\<close>, a split at the
  first two delimiters, and the stripped third part when there are three parts.\<close>

definition strip_front_matter :: "string \<Rightarrow> error + string" where
  "strip_front_matter markdown_content =
     (if startswith markdown_content ''---'' then
        (let parts = split_str ''---'' (Some 2) markdown_content in
         if 3 \<le> length parts then
           (case item parts 2 of Inl e \<Rightarrow> Inl e | Inr part \<Rightarrow> Inr (strip part))
         else Inr markdown_content)
      else Inr markdown_content)"

text \<open>
  \<open>re.sub(r'^### (.+)$', r'<h3>\1</h3>', s, flags=re.MULTILINE)\<close> and its two siblings.
  With \<open>MULTILINE\<close> the anchors match at the line breaks and \<open>.\<close> matches everything but
  the line break, so the substitution rewrites each line that starts with the marker and
  has at least one more character.
\<close>

definition sub_header_line :: "string \<Rightarrow> string \<Rightarrow> string \<Rightarrow> string" where
  "sub_header_line marker tag line =
     (if startswith line marker \<and> length marker < length line
      then ''<'' @ tag @ ''>'' @ drop (length marker) line @ ''</'' @ tag @ ''>''
      else line)"

definition sub_header :: "string \<Rightarrow> string \<Rightarrow> string \<Rightarrow> string" where
  "sub_header marker tag s =
     join [newline] (map (sub_header_line marker tag) (split_str [newline] None s))"

text \<open>
  \<open>re.sub(r'\*\*(.+?)\*\*', r'<strong>\1</strong>', s)\<close> and the same with one asterisk.
  \<open>find_close d s\<close> is the length of the lazy group \<open>(.+?)\<close> when \<open>s\<close> follows an
  opening delimiter: the least \<open>n \<ge> 1\<close> with no line break among the first \<open>n\<close>
  characters and the delimiter right after them.
\<close>

fun find_close :: "string \<Rightarrow> string \<Rightarrow> nat option" where
  "find_close d [] = None"
| "find_close d (c # cs) =
     (if c = newline then None
      else if startswith cs d then Some 1
      else map_option Suc (find_close d cs))"

function sub_emphasis :: "string \<Rightarrow> string \<Rightarrow> string \<Rightarrow> string" where
  "sub_emphasis d tag [] = []"
| "sub_emphasis d tag (c # cs) =
     (if startswith (c # cs) d then
        (case find_close d (drop (length d) (c # cs)) of
           Some n \<Rightarrow>
             ''<'' @ tag @ ''>'' @ take n (drop (length d) (c # cs)) @ ''</'' @ tag @ ''>''
             @ sub_emphasis d tag (drop (length d + n + length d) (c # cs))
         | None \<Rightarrow> c # sub_emphasis d tag cs)
      else c # sub_emphasis d tag cs)"
  by pat_completeness auto

lemma find_close_pos: "find_close d s = Some n \<Longrightarrow> 0 < n"
  by (induction s arbitrary: n) (auto split: if_splits)

termination sub_emphasis
proof (relation "measure (\<lambda>(d, tag, s). length s)")
  show "wf (measure (\<lambda>(d, tag, s). length s))" by simp
next
  fix d tag :: string and c :: char and cs :: string and n :: nat
  assume "find_close d (drop (length d) (c # cs)) = Some n"
  then have "0 < n" by (rule find_close_pos)
  then show "((d, tag, drop (length d + n + length d) (c # cs)), (d, tag, c # cs))
      \<in> measure (\<lambda>(d, tag, s). length s)"
    by auto
qed auto

text \<open>The paragraph loop. A paragraph that does not start with \<open><\<close> is wrapped into
  \<open>para\<close> and then left; only the second branch appends.\<close>

fun paragraph_loop :: "string list \<Rightarrow> string list \<Rightarrow> string list" where
  "paragraph_loop [] html_paragraphs = html_paragraphs"
| "paragraph_loop (p # paragraphs) html_paragraphs =
     (let para = strip p in
      if para \<noteq> [] \<and> \<not> startswith para ''<'' then
        (let para = ''<p>'' @ para @ ''</p>'' in paragraph_loop paragraphs html_paragraphs)
      else if para \<noteq> [] then paragraph_loop paragraphs (html_paragraphs @ [para])
      else paragraph_loop paragraphs html_paragraphs)"

definition simple_markdown_to_html :: "string \<Rightarrow> error + string" where
  "simple_markdown_to_html markdown_content =
     (case strip_front_matter markdown_content of
        Inl e \<Rightarrow> Inl e
      | Inr markdown_content \<Rightarrow>
          (let html_content = markdown_content;
               html_content = sub_header ''### '' ''h3'' html_content;
               html_content = sub_header ''## '' ''h2'' html_content;
               html_content = sub_header ''# '' ''h1'' html_content;
               html_content = sub_emphasis ''**'' ''strong'' html_content;
               html_content = sub_emphasis ''*'' ''em'' html_content;
               paragraphs = split_str [newline, newline] None html_content;
               html_paragraphs = paragraph_loop paragraphs []
           in Inr (join [newline] html_paragraphs)))"


section \<open>Data model\<close>

text \<open>A topic is the dictionary built by \<open>_load_sheet_data\<close> (or by
  \<open>generate_custom_blog_post\<close>, whose row number is the string \<open>custom\<close>).\<close>

datatype row_id = Row int | Custom

record topic =
  row_number :: row_id
  primary_keywords :: string
  auxiliary_keywords :: string
  title :: string

record datetime =
  year :: nat
  month :: nat
  day :: nat
  hour :: nat
  minute :: nat
  second :: nat

text \<open>\<open>WordPressPost\<close> as \<open>WordPressClient.create_post\<close> fills it.\<close>

record wp_post =
  post_title :: string
  post_content :: string
  post_status :: string
  excerpt :: string
  custom_fields :: "(string \<times> string) list"

text \<open>\<open>WordPressClient\<close>: \<open>client_set\<close> says that \<open>self.client\<close> is not \<open>None\<close>.\<close>

record wordpress_client =
  client_set :: bool

text \<open>The fields of \<open>BlogEngine\<close> that the pipeline reads; \<open>wp_client = None\<close> says that
  the attribute was never assigned (\<open>hasattr(self, 'wp_client')\<close> is false).\<close>

record engine =
  output_dir :: string
  wordpress_enabled :: bool
  wp_status :: string
  sheet_data :: "topic list"
  wp_client :: "wordpress_client option"

section \<open>The outside world\<close>

text \<open>
  Every call that leaves the program is a function of the state \<open>'w\<close> of the outside
  world: it returns the new state and either a result or the exception it raised.
  \<^item> \<open>clock\<close>: \<open>datetime.now()\<close>;
  \<^item> \<open>chat_completion\<close>: the request of \<open>_generate_ai_content\<close> for one topic (the prompt
    is a fixed template of the topic's fields), giving the message content;
  \<^item> \<open>write_file\<close>: opening the path for writing and writing the text;
  \<^item> \<open>markdown_lib\<close>: \<open>markdown.markdown\<close> with its two extensions;
  \<^item> \<open>wp_connect\<close>: \<open>WordPressClient()\<close>, which reads the credentials and builds the
    XML-RPC client;
  \<^item> \<open>wp_get_posts\<close>, \<open>wp_new_post\<close>: \<open>client.call(GetPosts(...))\<close> and
    \<open>client.call(NewPost(post))\<close>.
\<close>

record 'w collaborators =
  clock :: "'w \<Rightarrow> datetime \<times> 'w"
  chat_completion :: "topic \<Rightarrow> 'w \<Rightarrow> (error + string) \<times> 'w"
  write_file :: "string \<Rightarrow> string \<Rightarrow> 'w \<Rightarrow> (error + unit) \<times> 'w"
  markdown_lib :: "string \<Rightarrow> error + string"
  wp_connect :: "'w \<Rightarrow> (error + unit) \<times> 'w"
  wp_get_posts :: "'w \<Rightarrow> (error + unit) \<times> 'w"
  wp_new_post :: "wp_post \<Rightarrow> 'w \<Rightarrow> (error + int) \<times> 'w"

text \<open>What a run does is recorded as a trace: each line printed (without its emoji and
  colour codes) and each call to a collaborator with its outcome.\<close>

datatype event =
    Print_info string
  | Print_success string
  | Print_error string
  | Print_warning string
  | Print string
  | Completion topic "error + string"
  | Write string string "error + unit"
  | Connect "error + unit"
  | Get_posts "error + unit"
  | New_post wp_post "error + int"

record 'w state =
  world :: 'w
  trace :: "event list"

definition emit :: "event \<Rightarrow> 'w state \<Rightarrow> 'w state" where
  "emit ev s = s\<lparr>trace := trace s @ [ev]\<rparr>"

definition call_clock :: "'w collaborators \<Rightarrow> 'w state \<Rightarrow> datetime \<times> 'w state" where
  "call_clock C s = (let (dt, w) = clock C (world s) in (dt, s\<lparr>world := w\<rparr>))"

definition call_completion ::
  "'w collaborators \<Rightarrow> topic \<Rightarrow> 'w state \<Rightarrow> (error + string) \<times> 'w state" where
  "call_completion C t s =
     (let (r, w) = chat_completion C t (world s)
      in (r, emit (Completion t r) (s\<lparr>world := w\<rparr>)))"

definition call_write ::
  "'w collaborators \<Rightarrow> string \<Rightarrow> string \<Rightarrow> 'w state \<Rightarrow> (error + unit) \<times> 'w state" where
  "call_write C path text s =
     (let (r, w) = write_file C path text (world s)
      in (r, emit (Write path text r) (s\<lparr>world := w\<rparr>)))"

definition call_connect :: "'w collaborators \<Rightarrow> 'w state \<Rightarrow> (error + unit) \<times> 'w state" where
  "call_connect C s =
     (let (r, w) = wp_connect C (world s) in (r, emit (Connect r) (s\<lparr>world := w\<rparr>)))"

definition call_get_posts :: "'w collaborators \<Rightarrow> 'w state \<Rightarrow> (error + unit) \<times> 'w state" where
  "call_get_posts C s =
     (let (r, w) = wp_get_posts C (world s) in (r, emit (Get_posts r) (s\<lparr>world := w\<rparr>)))"

definition call_new_post ::
  "'w collaborators \<Rightarrow> wp_post \<Rightarrow> 'w state \<Rightarrow> (error + int) \<times> 'w state" where
  "call_new_post C post s =
     (let (r, w) = wp_new_post C post (world s)
      in (r, emit (New_post post r) (s\<lparr>world := w\<rparr>)))"

text \<open>\<open>str(e)\<close> of an exception.\<close>

fun error_message :: "error \<Rightarrow> string" where
  "error_message IndexError = ''list index out of range''"
| "error_message (Exception msg) = msg"

section \<open>Content generator: \<open>BlogEngine._generate_ai_content\<close>\<close>

definition generate_ai_content ::
  "'w collaborators \<Rightarrow> topic \<Rightarrow> 'w state \<Rightarrow> (error + string) \<times> 'w state" where
  "generate_ai_content C topic_data s =
     (let (r, s) = call_completion C topic_data s in
      case r of
        Inl e \<Rightarrow> (Inl (Exception (''AI generation failed: '' @ error_message e)), s)
      | Inr content \<Rightarrow> (Inr (strip content), s))"

section \<open>Post writer: \<open>BlogEngine._save_blog_post\<close>\<close>

text \<open>\<open>strftime("%Y%m%d_%H%M%S")\<close> and \<open>strftime("%Y-%m-%d %H:%M:%S")\<close>, the year on four
  digits.\<close>

definition strftime_compact :: "datetime \<Rightarrow> string" where
  "strftime_compact dt =
     zfill 4 (str_nat (year dt)) @ zfill 2 (str_nat (month dt)) @ zfill 2 (str_nat (day dt))
     @ ''_'' @ zfill 2 (str_nat (hour dt)) @ zfill 2 (str_nat (minute dt))
     @ zfill 2 (str_nat (second dt))"

definition strftime_long :: "datetime \<Rightarrow> string" where
  "strftime_long dt =
     zfill 4 (str_nat (year dt)) @ ''-'' @ zfill 2 (str_nat (month dt)) @ ''-''
     @ zfill 2 (str_nat (day dt)) @ '' '' @ zfill 2 (str_nat (hour dt)) @ '':''
     @ zfill 2 (str_nat (minute dt)) @ '':'' @ zfill 2 (str_nat (second dt))"

definition dquote :: char where
  "dquote = CHR 0x22"

fun str_row :: "row_id \<Rightarrow> string" where
  "str_row (Row n) = str_int n"
| "str_row Custom = ''custom''"

definition str_bool :: "bool \<Rightarrow> string" where
  "str_bool b = (if b then ''True'' else ''False'')"

text \<open>The name of the file: the time stamp, an underscore, the slug and \<open>.md\<close>.\<close>

definition post_filename :: "datetime \<Rightarrow> string \<Rightarrow> string" where
  "post_filename dt name = strftime_compact dt @ ''_'' @ engine_slug name @ ''.md''"

text \<open>The f-string \<open>metadata\<close>.\<close>

definition front_matter :: "engine \<Rightarrow> topic \<Rightarrow> string \<Rightarrow> datetime \<Rightarrow> string" where
  "front_matter eng topic_data meta_description dt =
     ''---'' @ [newline]
     @ ''title: '' @ [dquote] @ title topic_data @ [dquote] @ [newline]
     @ ''meta_description: '' @ [dquote] @ meta_description @ [dquote] @ [newline]
     @ ''date: '' @ strftime_long dt @ [newline]
     @ ''primary_keywords: '' @ [dquote] @ primary_keywords topic_data @ [dquote] @ [newline]
     @ ''auxiliary_keywords: '' @ [dquote] @ auxiliary_keywords topic_data @ [dquote]
     @ [newline]
     @ ''row_number: '' @ str_row (row_number topic_data) @ [newline]
     @ ''generated_by: '' @ [dquote] @ ''Blog Writing Agent v2.0'' @ [dquote] @ [newline]
     @ ''wordpress_enabled: '' @ str_bool (wordpress_enabled eng) @ [newline]
     @ ''---'' @ [newline] @ [newline]"

text \<open>
  \<open>str(self.output_dir / filename)\<close> on a POSIX system. The field \<open>output_dir\<close> of the
  engine holds \<open>str(self.output_dir)\<close>, the directory as \<open>pathlib\<close> normalised it in
  \<open>__init__\<close>; the file name ends in \<open>.md\<close> and has no slash. Joining to the current
  directory \<open>.\<close> gives the file name alone, and a root (\<open>/\<close> or \<open>//\<close>) already ends with
  the separator.
\<close>

definition path_join :: "string \<Rightarrow> string \<Rightarrow> string" where
  "path_join dir filename =
     (if dir = ''.'' then filename
      else if dir \<noteq> [] \<and> last dir = CHR ''/'' then dir @ filename
      else dir @ ''/'' @ filename)"

definition save_blog_post ::
  "'w collaborators \<Rightarrow> engine \<Rightarrow> topic \<Rightarrow> string \<Rightarrow> string \<Rightarrow> 'w state
     \<Rightarrow> (error + string) \<times> 'w state" where
  "save_blog_post C eng topic_data content meta_description s =
     (let (timestamp, s) = call_clock C s;
          filename = post_filename timestamp (title topic_data);
          filepath = path_join (output_dir eng) filename;
          (date, s) = call_clock C s;
          metadata = front_matter eng topic_data meta_description date;
          full_content = metadata @ content;
          (r, s) = call_write C filepath full_content s
      in case r of
           Inl e \<Rightarrow>
             (Inl (Exception (''Failed to save markdown file: '' @ error_message e)), s)
         | Inr u \<Rightarrow> (Inr filepath, s))"


section \<open>Publisher\<close>

text \<open>\<open>WordPressClient.create_post\<close>: the whole body is inside one \<open>try\<close>, and every
  exception leaves as \<open>Exception("Failed to create WordPress post: ...")\<close>.\<close>

definition create_post ::
  "'w collaborators \<Rightarrow> wordpress_client \<Rightarrow> string \<Rightarrow> string \<Rightarrow> string \<Rightarrow> string
     \<Rightarrow> 'w state \<Rightarrow> (error + int) \<times> 'w state" where
  "create_post C client name content status meta_description s =
     (if \<not> client_set client then
        (Inl (Exception (''Failed to create WordPress post: ''
                @ ''WordPress client not initialized'')), s)
      else
        (let post = \<lparr>post_title = name, post_content = content, post_status = status,
                     excerpt =
                       (if meta_description \<noteq> [] then meta_description
                        else if 200 < length content then take 200 content @ ''...''
                        else content),
                     custom_fields =
                       (if meta_description \<noteq> [] then
                          [(''_yoast_wpseo_metadesc'', meta_description),
                           (''_aioseop_description'', meta_description),
                           (''meta_description'', meta_description)]
                        else [])\<rparr>;
             (r, s) = call_new_post C post s
         in case r of
              Inl e \<Rightarrow>
                (Inl (Exception (''Failed to create WordPress post: '' @ error_message e)), s)
            | Inr post_id \<Rightarrow> (Inr post_id, s)))"

text \<open>\<open>WordPressClient.test_connection\<close>\<close>

definition test_connection ::
  "'w collaborators \<Rightarrow> wordpress_client \<Rightarrow> 'w state \<Rightarrow> bool \<times> 'w state" where
  "test_connection C client s =
     (if \<not> client_set client then (False, s)
      else
        (let (r, s) = call_get_posts C s in
         case r of
           Inr u \<Rightarrow> (True, s)
         | Inl e \<Rightarrow>
             (False, emit (Print (''WordPress connection test failed: '' @ error_message e)) s)))"

text \<open>\<open>BlogEngine._markdown_to_html\<close>: the library, and the fallback when it raises. The
  fallback receives \<open>markdown_content\<close> as it is at that moment, which is the text without
  its front matter once that assignment has run.\<close>

definition markdown_to_html ::
  "'w collaborators \<Rightarrow> string \<Rightarrow> 'w state \<Rightarrow> (error + string) \<times> 'w state" where
  "markdown_to_html C markdown_content s =
     (case strip_front_matter markdown_content of
        Inl e \<Rightarrow>
          (simple_markdown_to_html markdown_content,
           emit (Print_error (''Markdown conversion failed: '' @ error_message e)) s)
      | Inr stripped \<Rightarrow>
          (case markdown_lib C stripped of
             Inl e \<Rightarrow>
               (simple_markdown_to_html stripped,
                emit (Print_error (''Markdown conversion failed: '' @ error_message e)) s)
           | Inr html \<Rightarrow>
               (let html_content = strip html in
                (Inr html_content,
                 emit (Print_info (''Converted '' @ str_nat (length stripped)
                         @ '' chars of markdown to '' @ str_nat (length html_content)
                         @ '' chars of HTML'')) s))))"

text \<open>\<open>BlogEngine._publish_to_wordpress\<close>: \<open>None\<close> when publishing is off, when there is no
  client, and when anything inside the \<open>try\<close> raised.\<close>

definition publish_to_wordpress ::
  "'w collaborators \<Rightarrow> engine \<Rightarrow> topic \<Rightarrow> string \<Rightarrow> string \<Rightarrow> 'w state
     \<Rightarrow> int option \<times> 'w state" where
  "publish_to_wordpress C eng topic_data content meta_description s =
     (if \<not> wordpress_enabled eng then (None, s)
      else case wp_client eng of
        None \<Rightarrow> (None, s)
      | Some client \<Rightarrow>
          (let (h, s) = markdown_to_html C content s in
           case h of
             Inl e \<Rightarrow>
               (None, emit (Print_error (''WordPress publishing error: '' @ error_message e)) s)
           | Inr html_content \<Rightarrow>
               (let (r, s) = create_post C client (title topic_data) html_content
                               (wp_status eng) meta_description s
                in case r of
                     Inl e \<Rightarrow>
                       (None,
                        emit (Print_error (''WordPress publishing error: ''
                                @ error_message e)) s)
                   | Inr post_id \<Rightarrow> (Some post_id, s))))"

section \<open>Orchestrator\<close>

text \<open>\<open>BlogEngine._init_wordpress_client\<close>\<close>

definition init_wordpress_client ::
  "'w collaborators \<Rightarrow> engine \<Rightarrow> 'w state \<Rightarrow> engine \<times> 'w state" where
  "init_wordpress_client C eng s =
     (let (r, s) = call_connect C s in
      case r of
        Inl e \<Rightarrow>
          (eng\<lparr>wordpress_enabled := False\<rparr>,
           emit (Print_info ''Falling back to markdown-only mode'')
             (emit (Print_error (''WordPress initialization failed: ''
                      @ ''Failed to create WordPress client: '' @ error_message e)) s))
      | Inr u \<Rightarrow>
          (let eng = eng\<lparr>wp_client := Some \<lparr>client_set = True\<rparr>\<rparr>;
               (ok, s) = test_connection C \<lparr>client_set = True\<rparr> s
           in if ok then
                (eng, emit (Print_info ''WordPress client initialized and connected!'') s)
              else
                (eng\<lparr>wordpress_enabled := False\<rparr>,
                 emit (Print_info ''Posts will be saved as markdown only'')
                   (emit (Print_warning
                            ''WordPress client initialized but connection failed'') s))))"

text \<open>\<open>if wp_post_id:\<close> with its two reports; \<open>None\<close> and \<open>0\<close> are false.\<close>

definition report_publish ::
  "string \<Rightarrow> int option \<Rightarrow> nat \<Rightarrow> 'w state \<Rightarrow> nat \<times> 'w state" where
  "report_publish label wp_post_id published_count s =
     (case wp_post_id of
        None \<Rightarrow> (published_count, emit (Print_error ''WordPress publishing failed'') s)
      | Some i \<Rightarrow>
          if i \<noteq> 0
          then (published_count + 1, emit (Print_success (label @ str_int i)) s)
          else (published_count, emit (Print_error ''WordPress publishing failed'') s))"

text \<open>\<open>BlogEngine.generate_blog_post\<close>: nothing is caught here, so an exception of the
  generator or of the writer leaves the function.\<close>

definition generate_blog_post ::
  "'w collaborators \<Rightarrow> engine \<Rightarrow> int \<Rightarrow> 'w state \<Rightarrow> (error + unit) \<times> 'w state" where
  "generate_blog_post C eng n s =
     (case find (\<lambda>item. row_number item = Row n) (sheet_data eng) of
        None \<Rightarrow> (Inr (), emit (Print_error (''Row '' @ str_int n @ '' not found!'')) s)
      | Some topic_data \<Rightarrow>
          (let s = emit (Print_info (''Generating blog post for: '' @ title topic_data)) s;
               (a, s) = generate_ai_content C topic_data s
           in case a of
                Inl e \<Rightarrow> (Inl e, s)
              | Inr ai_content \<Rightarrow>
                  (case extract_meta_description ai_content of
                     Inl e \<Rightarrow> (Inl e, s)
                   | Inr (meta_description, blog_content) \<Rightarrow>
                       (let s = emit (Print_info (''Meta description: ''
                                        @ meta_description)) s;
                            (f, s) = save_blog_post C eng topic_data blog_content
                                       meta_description s
                        in case f of
                             Inl e \<Rightarrow> (Inl e, s)
                           | Inr filename \<Rightarrow>
                               (let s = emit (Print_success (''Markdown saved: ''
                                                @ filename)) s
                                in if wordpress_enabled eng then
                                     (let (wp_post_id, s) =
                                            publish_to_wordpress C eng topic_data
                                              blog_content meta_description s;
                                          (k, s) = report_publish
                                                     ''Published to WordPress! Post ID: ''
                                                     wp_post_id 0 s
                                      in (Inr (), s))
                                   else (Inr (), s))))))"

text \<open>
  The body of the \<open>try\<close> in \<open>BlogEngine.generate_all_blog_posts\<close> for one topic. It returns
  the exception that left it, if any, and the two counters as they stand at that moment:
  an assignment made before the exception is not undone.
\<close>

definition batch_body ::
  "'w collaborators \<Rightarrow> engine \<Rightarrow> topic \<Rightarrow> nat \<times> nat \<Rightarrow> 'w state
     \<Rightarrow> (error option \<times> (nat \<times> nat)) \<times> 'w state" where
  "batch_body C eng topic_data counts s =
     (let (generated_count, published_count) = counts;
          s = emit (Print_info (''Generating: '' @ title topic_data)) s;
          (a, s) = generate_ai_content C topic_data s
      in case a of
           Inl e \<Rightarrow> ((Some e, (generated_count, published_count)), s)
         | Inr ai_content \<Rightarrow>
             (case extract_meta_description ai_content of
                Inl e \<Rightarrow> ((Some e, (generated_count, published_count)), s)
              | Inr (meta_description, blog_content) \<Rightarrow>
                  (let (f, s) = save_blog_post C eng topic_data blog_content
                                  meta_description s
                   in case f of
                        Inl e \<Rightarrow> ((Some e, (generated_count, published_count)), s)
                      | Inr filename \<Rightarrow>
                          (let generated_count = generated_count + 1;
                               s = emit (Print_success (''Markdown: '' @ filename)) s;
                               (published_count, s) =
                                 (if wordpress_enabled eng then
                                    (let (wp_post_id, s) =
                                           publish_to_wordpress C eng topic_data
                                             blog_content meta_description s
                                     in report_publish ''WordPress ID: '' wp_post_id
                                          published_count s)
                                  else (published_count, s));
                               s = emit (Print (replicate 50 (CHR ''-''))) s
                           in ((None, (generated_count, published_count)), s)))))"

text \<open>The \<open>for\<close> loop with its \<open>except Exception\<close>.\<close>

fun batch_loop ::
  "'w collaborators \<Rightarrow> engine \<Rightarrow> topic list \<Rightarrow> nat \<times> nat \<Rightarrow> 'w state
     \<Rightarrow> (nat \<times> nat) \<times> 'w state" where
  "batch_loop C eng [] counts s = (counts, s)"
| "batch_loop C eng (topic_data # topics) counts s =
     (let ((raised, counts), s) = batch_body C eng topic_data counts s;
          s = (case raised of
                 None \<Rightarrow> s
               | Some e \<Rightarrow>
                   emit (Print_error (''Failed to generate '' @ title topic_data @ '': ''
                           @ error_message e)) s)
      in batch_loop C eng topics counts s)"

text \<open>\<open>BlogEngine.generate_all_blog_posts\<close>; the result is the pair of the two counters
  that the last lines print.\<close>

definition generate_all_blog_posts ::
  "'w collaborators \<Rightarrow> engine \<Rightarrow> 'w state \<Rightarrow> (nat \<times> nat) \<times> 'w state" where
  "generate_all_blog_posts C eng s =
     (let total = str_nat (length (sheet_data eng));
          s = emit (Print_info (''BEAST MODE ACTIVATED! Generating '' @ total
                      @ '' blog posts...'')) s;
          s = (if wordpress_enabled eng
               then emit (Print_info ''WordPress publishing is ENABLED for all posts!'') s
               else s);
          ((generated_count, published_count), s) =
            batch_loop C eng (sheet_data eng) (0, 0) s;
          s = emit (Print_success ''BEAST MODE COMPLETE!'') s;
          s = emit (Print_success (''Generated: '' @ str_nat generated_count @ ''/'' @ total
                      @ '' markdown files'')) s;
          s = (if wordpress_enabled eng
               then emit (Print_success (''Published: '' @ str_nat published_count @ ''/''
                            @ total @ '' WordPress posts'')) s
               else s)
      in ((generated_count, published_count), s))"

section \<open>Reading a trace\<close>

fun is_write_ok :: "event \<Rightarrow> bool" where
  "is_write_ok (Write path text (Inr u)) = True"
| "is_write_ok ev = False"

fun is_write_call :: "event \<Rightarrow> bool" where
  "is_write_call (Write path text r) = True"
| "is_write_call ev = False"

fun is_completion_call :: "event \<Rightarrow> bool" where
  "is_completion_call (Completion t r) = True"
| "is_completion_call ev = False"

fun is_new_post_call :: "event \<Rightarrow> bool" where
  "is_new_post_call (New_post post r) = True"
| "is_new_post_call ev = False"

fun is_post_ok :: "event \<Rightarrow> bool" where
  "is_post_ok (New_post post (Inr i)) = (i \<noteq> 0)"
| "is_post_ok ev = False"

fun is_completion_failed :: "event \<Rightarrow> bool" where
  "is_completion_failed (Completion t (Inl e)) = True"
| "is_completion_failed ev = False"

fun is_write_failed :: "event \<Rightarrow> bool" where
  "is_write_failed (Write path text (Inl e)) = True"
| "is_write_failed ev = False"

fun is_new_post_failed :: "event \<Rightarrow> bool" where
  "is_new_post_failed (New_post post (Inl e)) = True"
| "is_new_post_failed ev = False"

text \<open>The events that are calls to a collaborator; the others are printed lines.\<close>

fun is_call :: "event \<Rightarrow> bool" where
  "is_call (Completion t r) = True"
| "is_call (Write path text r) = True"
| "is_call (Connect r) = True"
| "is_call (Get_posts r) = True"
| "is_call (New_post post r) = True"
| "is_call ev = False"


text \<open>The topics for which a generation was requested, in the order of the requests.\<close>

fun attempted :: "event list \<Rightarrow> topic list" where
  "attempted [] = []"
| "attempted (Completion t r # evs) = t # attempted evs"
| "attempted (ev # evs) = attempted evs"

definition count_events :: "(event \<Rightarrow> bool) \<Rightarrow> event list \<Rightarrow> nat" where
  "count_events P tr = length (filter P tr)"

text \<open>The events a step added: the trace only grows.\<close>

definition new_events :: "'w state \<Rightarrow> 'w state \<Rightarrow> event list" where
  "new_events s s' = drop (length (trace s)) (trace s')"

text \<open>
  The publish stage of one topic in a batch run, with the line that reports it. It ends
  either with a remote post created under a true identifier, or with the report of a
  failure; a call that raised has left its error line before that report.
\<close>

abbreviation published :: "topic \<Rightarrow> event list \<Rightarrow> bool" where
  "published t pub \<equiv>
     (\<exists>post i. i \<noteq> 0 \<and> filter is_call pub = [New_post post (Inr i)]
        \<and> post_title post = title t
        \<and> last pub = Print_success (''WordPress ID: '' @ str_int i))"

abbreviation not_published :: "event list \<Rightarrow> bool" where
  "not_published pub \<equiv>
     (last pub = Print_error ''WordPress publishing failed''
      \<and> (filter is_call pub = []
         \<or> (\<exists>post. filter is_call pub = [New_post post (Inr 0)])
         \<or> (\<exists>post e. filter is_call pub = [New_post post (Inl e)]
               \<and> Print_error (''WordPress publishing error: Failed to create WordPress post: ''
                     @ error_message e) \<in> set pub)))"


section \<open>Reading a written file back\<close>



section \<open>A concrete run\<close>

text \<open>
  Collaborators for the scenarios below. The state of the world is the number of file
  writes attempted so far. The generation for row 2 raises; every other generation returns
  a short text; with \<open>locked\<close> the first write of the session raises; the connectivity
  probe raises; creating a remote post returns the identifier 7.
\<close>

definition scenario_clock :: datetime where
  "scenario_clock = \<lparr>year = 2025, month = 9, day = 24, hour = 10, minute = 15, second = 30\<rparr>"

definition scenario_collaborators :: "bool \<Rightarrow> nat collaborators" where
  "scenario_collaborators locked =
     \<lparr>clock = (\<lambda>w. (scenario_clock, w)),
      chat_completion = (\<lambda>t w.
        (if row_number t = Row 2 then Inl (Exception ''timeout'') else Inr ''Text'', w)),
      write_file = (\<lambda>path content w.
        (if locked \<and> w = 0 then Inl (Exception ''Permission denied'') else Inr (), Suc w)),
      markdown_lib = (\<lambda>s. Inr s),
      wp_connect = (\<lambda>w. (Inr (), w)),
      wp_get_posts = (\<lambda>w. (Inl (Exception ''connection refused''), w)),
      wp_new_post = (\<lambda>post w. (Inr 7, w))\<rparr>"

definition scenario_topic :: "int \<Rightarrow> topic" where
  "scenario_topic n =
     \<lparr>row_number = Row n, primary_keywords = ''seo'', auxiliary_keywords = ''blog'',
      title = ''Topic''\<rparr>"

definition scenario_engine :: "bool \<Rightarrow> topic list \<Rightarrow> engine" where
  "scenario_engine enabled topics =
     \<lparr>output_dir = ''blog_posts'', wordpress_enabled = enabled, wp_status = ''draft'',
      sheet_data = topics, wp_client = None\<rparr>"

definition scenario_start :: "nat state" where
  "scenario_start = \<lparr>world = 0, trace = []\<rparr>"

text \<open>
  A session whose site is reachable: the probe succeeds, the engine holds its client, and
  creating a remote post succeeds (identifier 7) only at the moment when exactly two
  writes have been attempted; at any other moment it raises.
\<close>

definition publishing_collaborators :: "bool \<Rightarrow> nat collaborators" where
  "publishing_collaborators locked =
     (scenario_collaborators locked)
       \<lparr>wp_get_posts := (\<lambda>w. (Inr (), w)),
        wp_new_post := (\<lambda>post w. (if w = 2 then Inr 7 else Inl (Exception ''fault''), w))\<rparr>"

definition publishing_engine :: "topic list \<Rightarrow> engine" where
  "publishing_engine topics =
     (scenario_engine True topics)\<lparr>wp_client := Some \<lparr>client_set = True\<rparr>\<rparr>"

section \<open>Facts about the string operations\<close>

lemma startswith_Nil [simp]: "startswith s []"
  by (simp add: startswith_def)

lemma startswith_append [simp]: "startswith (p @ s) p"
  by (simp add: startswith_def)

lemma find_str_None_split: "find_str sep s = None \<Longrightarrow> split_str sep k s = [s]"
  by (subst split_str.simps) simp

lemma split_str_not_Nil: "split_str sep k s \<noteq> []"
  by (subst split_str.simps) (simp split: option.splits)

lemma split_str_short:
  assumes "length (split_str sep k s) < 2" and "sep \<noteq> []" and "k \<noteq> Some 0"
  shows "find_str sep s = None"
proof (cases "find_str sep s")
  case None
  then show ?thesis .
next
  case (Some i)
  with assms(2,3) have "split_str sep k s =
      take i s # split_str sep (map_option (\<lambda>n. n - 1) k) (drop (i + length sep) s)"
    by (subst split_str.simps) simp
  moreover obtain y ys where
    "split_str sep (map_option (\<lambda>n. n - 1) k) (drop (i + length sep) s) = y # ys"
    using split_str_not_Nil by (meson neq_Nil_conv)
  ultimately have "2 \<le> length (split_str sep k s)" by simp
  with assms(1) show ?thesis by simp
qed

lemma find_str_single: "c \<notin> set xs \<Longrightarrow> find_str [c] (xs @ c # ys) = Some (length xs)"
  by (induction xs) (auto simp: startswith_def)

lemma find_str_single_None: "c \<notin> set xs \<Longrightarrow> find_str [c] xs = None"
  by (induction xs) (auto simp: startswith_def)

lemma split_str_single:
  "c \<notin> set xs \<Longrightarrow> k \<noteq> Some 0 \<Longrightarrow>
   split_str [c] k (xs @ c # ys) = xs # split_str [c] (map_option (\<lambda>n. n - 1) k) ys"
  by (subst split_str.simps) (simp add: find_str_single)

lemma replace_absent: "find_str old s = None \<Longrightarrow> replace old new s = s"
proof (induction s)
  case Nil
  then show ?case by (subst replace.simps) simp
next
  case (Cons c cs)
  then have "\<not> startswith (c # cs) old" and "find_str old cs = None"
    by (auto split: if_splits)
  with Cons.IH show ?case by (subst replace.simps) simp
qed

lemma replace_prefix: "old \<noteq> [] \<Longrightarrow> replace old new (old @ s) = new @ replace old new s"
  by (subst replace.simps) simp

lemma strip_chars_Nil_iff: "strip_chars P s = [] \<longleftrightarrow> (\<forall>c\<in>set s. P c)"
proof
  assume "strip_chars P s = []"
  then have "dropWhile P (rev (dropWhile P s)) = []"
    by (simp add: strip_chars_def)
  then have a: "\<forall>c\<in>set (dropWhile P s). P c"
    by (simp add: dropWhile_eq_Nil_conv)
  have "dropWhile P s = []"
  proof (cases "dropWhile P s")
    case Nil
    then show ?thesis .
  next
    case (Cons y ys)
    then have "\<not> P y" using hd_dropWhile[of P s] by simp
    with a Cons show ?thesis by simp
  qed
  then show "\<forall>c\<in>set s. P c"
    by (simp add: dropWhile_eq_Nil_conv)
next
  assume "\<forall>c\<in>set s. P c"
  then have "dropWhile P s = []"
    by (simp add: dropWhile_eq_Nil_conv)
  then show "strip_chars P s = []"
    unfolding strip_chars_def by (simp only: dropWhile.simps rev.simps)
qed

lemma strip_chars_skip: "P c \<Longrightarrow> strip_chars P (c # s) = strip_chars P s"
  by (simp add: strip_chars_def)

lemma strip_chars_id: "\<forall>c\<in>set s. \<not> P c \<Longrightarrow> strip_chars P s = s"
proof -
  assume a: "\<forall>c\<in>set s. \<not> P c"
  then have "dropWhile P s = s" by (cases s) auto
  moreover from a have "dropWhile P (rev s) = rev s" by (cases "rev s") auto
  ultimately show ?thesis by (simp add: strip_chars_def)
qed











section \<open>Facts about the response parser\<close>

lemma first_paragraph_find:
  "first_paragraph lines =
     (case find (\<lambda>l. strip l \<noteq> [] \<and> \<not> startswith l ''#'') lines of
        None \<Rightarrow> [] | Some l \<Rightarrow> strip l)"
  by (induction lines) auto

lemma item_0: "xs \<noteq> [] \<Longrightarrow> item xs 0 = Inr (hd xs)"
  by (cases xs) (auto simp: item_def)

lemma extract_total: "\<exists>m b. extract_meta_description content = Inr (m, b)"
proof (cases "startswith content meta_tag \<and> 2 \<le> length (split_str [newline] (Some 2) content)")
  case True
  then have "split_str [newline] (Some 2) content \<noteq> []" by auto
  from item_0[OF this] True show ?thesis
    by (simp add: extract_meta_description_def Let_def)
next
  case False
  then show ?thesis
    by (auto simp: extract_meta_description_def Let_def fallback_description_def)
qed

lemma extract_untagged:
  "\<not> startswith content meta_tag \<Longrightarrow>
   extract_meta_description content = Inr (fallback_description content)"
  by (simp add: extract_meta_description_def)

lemma meta_tag_not_space: "startswith content meta_tag \<Longrightarrow>
  strip content \<noteq> [] \<and> \<not> startswith content ''#''"
proof -
  assume "startswith content meta_tag"
  then obtain r where c: "content = CHR ''M'' # r"
    by (cases content) (auto simp: startswith_def meta_tag_def)
  have "\<not> is_space (CHR ''M'')" by (simp add: is_space_def)
  with c have "strip content \<noteq> []"
    unfolding strip_def strip_chars_Nil_iff by auto
  with c show ?thesis by (simp add: startswith_def)
qed

lemma extract_single_segment:
  assumes "startswith content meta_tag"
      and "length (split_str [newline] (Some 2) content) < 2"
  shows "extract_meta_description content =
     Inr (if 157 < length (strip content) then take 157 (strip content) @ ''...''
          else strip content, content)"
proof -
  from assms(2) have "find_str [newline] content = None"
    by (rule split_str_short) simp_all
  then have "split_str [newline] None content = [content]"
    by (rule find_str_None_split)
  with meta_tag_not_space[OF assms(1)]
  have "fallback_description content =
     (if 157 < length (strip content) then take 157 (strip content) @ ''...''
      else strip content, content)"
    by (simp add: fallback_description_def Let_def)
  with assms show ?thesis
    by (simp add: extract_meta_description_def Let_def)
qed

lemma extract_empty: "extract_meta_description [] = Inr ([], [])"
  by code_simp

lemma strip_newline: "strip (newline # s) = strip s"
  unfolding strip_def by (rule strip_chars_skip) (simp add: is_space_def newline_def)

lemma strip_space: "strip (CHR '' '' # s) = strip s"
  unfolding strip_def by (rule strip_chars_skip) (simp add: is_space_def)

lemma find_str_shift:
  assumes "find_str meta_tag x = None"
  shows "find_str meta_tag (CHR '' '' # x) = None"
  using assms by (simp add: startswith_def meta_tag_def)

lemma extract_tagged:
  assumes "newline \<notin> set x" and "find_str meta_tag x = None"
  shows "extract_meta_description (meta_tag @ '' '' @ x @ [newline, newline] @ body)
         = Inr (strip x, strip body)"
proof -
  let ?line0 = "meta_tag @ CHR '' '' # x"
  have nl: "newline \<notin> set ?line0"
    using assms(1) by (auto simp: meta_tag_def newline_def)
  have "split_str [newline] (Some 2) (?line0 @ newline # newline # body)
      = ?line0 # split_str [newline] (Some 1) (newline # body)"
    using split_str_single[OF nl, of "Some 2" "newline # body"] by simp
  moreover have "split_str [newline] (Some 1) (newline # body)
      = [] # split_str [newline] (Some 0) body"
    using split_str_single[of newline "[]" "Some 1" body] by simp
  moreover have "split_str [newline] (Some 0) body = [body]"
    by (subst split_str.simps) simp
  ultimately have lines:
    "split_str [newline] (Some 2) (meta_tag @ CHR '' '' # x @ newline # newline # body)
       = [?line0, [], body]"
    by simp
  have "replace meta_tag [] ?line0 = replace meta_tag [] (CHR '' '' # x)"
    using replace_prefix[of meta_tag "[]" "CHR '' '' # x"] by (simp add: meta_tag_def)
  also have "\<dots> = CHR '' '' # x"
    using replace_absent[OF find_str_shift[OF assms(2)]] by simp
  finally have meta: "strip (replace meta_tag [] ?line0) = strip x"
    by (simp add: strip_space)
  show ?thesis
    by (simp add: extract_meta_description_def lines item_def meta strip_newline)
qed

lemma fallback_length: "length (fst (fallback_description content)) \<le> 160"
  by (simp add: fallback_description_def Let_def)

section \<open>The response parser\<close>

text \<open>
  C3 (as amended). The parser returns a pair on every input and never raises; the empty
  string gives the empty meta description; and a text that starts with the tag and has
  fewer than two segments in \<open>split('\n', 2)\<close> takes the fallback path: the body is the
  whole input, unchanged and with the tag still in it, and the meta description is the
  stripped input cut to 157 characters and an ellipsis when it is longer.
\<close>

theorem extract_meta_description_total:
  "(\<exists>m b. extract_meta_description content = Inr (m, b))
   \<and> extract_meta_description [] = Inr ([], [])
   \<and> (startswith content meta_tag \<and> length (split_str [newline] (Some 2) content) < 2
        \<longrightarrow> extract_meta_description content =
            Inr (if 157 < length (strip content) then take 157 (strip content) @ ''...''
                 else strip content, content))"
  using extract_total extract_empty extract_single_segment by blast

theorem extract_meta_description_total_witness:
  "startswith ''META_DESCRIPTION: abc'' meta_tag
   \<and> length (split_str [newline] (Some 2) ''META_DESCRIPTION: abc'') < 2
   \<and> extract_meta_description ''META_DESCRIPTION: abc''
       = Inr (''META_DESCRIPTION: abc'', ''META_DESCRIPTION: abc'')"
proof -
  have a: "startswith ''META_DESCRIPTION: abc'' meta_tag" by code_simp
  have b: "length (split_str [newline] (Some 2) ''META_DESCRIPTION: abc'') < 2"
    by code_simp
  have c: "strip ''META_DESCRIPTION: abc'' = ''META_DESCRIPTION: abc''" by code_simp
  from extract_meta_description_total[of "''META_DESCRIPTION: abc''"] a b
  have "extract_meta_description ''META_DESCRIPTION: abc'' =
      Inr (if 157 < length (strip ''META_DESCRIPTION: abc'')
           then take 157 (strip ''META_DESCRIPTION: abc'') @ ''...''
           else strip ''META_DESCRIPTION: abc'', ''META_DESCRIPTION: abc'')"
    by blast
  then have "extract_meta_description ''META_DESCRIPTION: abc''
       = Inr (''META_DESCRIPTION: abc'', ''META_DESCRIPTION: abc'')"
    unfolding c by simp
  with a b show ?thesis by blast
qed

text \<open>
  The claim as stated fails on \<open>META_DESCRIPTION: abc\<close>: the text starts with the tag and
  has one segment, and the body returned is the whole text; it is neither what remains
  after the tag nor what remains after the first line.
\<close>

theorem extract_meta_description_remainder_counterexample:
  "startswith ''META_DESCRIPTION: abc'' meta_tag
   \<and> length (split_str [newline] (Some 2) ''META_DESCRIPTION: abc'') < 2
   \<and> extract_meta_description ''META_DESCRIPTION: abc''
       = Inr (''META_DESCRIPTION: abc'', ''META_DESCRIPTION: abc'')
   \<and> ''META_DESCRIPTION: abc'' \<noteq> drop (length meta_tag) ''META_DESCRIPTION: abc''
   \<and> ''META_DESCRIPTION: abc''
       \<noteq> join [newline] (drop 1 (split_str [newline] (Some 2) ''META_DESCRIPTION: abc''))"
  by code_simp

text \<open>
  C7 (as amended). For a string \<open>X\<close> without a line break and without an occurrence of
  the tag and any string \<open>BODY\<close>, the text \<open>META_DESCRIPTION: X\<close>, a blank line, \<open>BODY\<close> is
  parsed into the stripped \<open>X\<close> and the stripped \<open>BODY\<close>; this is the pair \<open>(X, BODY)\<close>
  itself when neither has leading or trailing whitespace.
\<close>

theorem extract_tagged_text:
  assumes "newline \<notin> set x" and "find_str meta_tag x = None"
  shows "extract_meta_description (meta_tag @ '' '' @ x @ [newline, newline] @ body)
           = Inr (strip x, strip body)
         \<and> (strip x = x \<and> strip body = body \<longrightarrow>
              extract_meta_description (meta_tag @ '' '' @ x @ [newline, newline] @ body)
                = Inr (x, body))"
  using extract_tagged[OF assms] by simp

theorem extract_tagged_text_witness:
  "newline \<notin> set ''Ten tips'' \<and> find_str meta_tag ''Ten tips'' = None
   \<and> strip ''Ten tips'' = ''Ten tips'' \<and> strip ''# Title'' = ''# Title''
   \<and> extract_meta_description
        (meta_tag @ '' '' @ ''Ten tips'' @ [newline, newline] @ ''# Title'')
       = Inr (''Ten tips'', ''# Title'')"
proof -
  have a: "newline \<notin> set ''Ten tips''" by (simp add: newline_def)
  have b: "find_str meta_tag ''Ten tips'' = None" by code_simp
  have c: "strip ''Ten tips'' = ''Ten tips''" by code_simp
  have d: "strip ''# Title'' = ''# Title''" by code_simp
  show ?thesis using extract_tagged_text[OF a b, of "''# Title''"] a b c d by simp
qed

text \<open>
  The claim as stated fails for \<open>X = a\<close> and \<open>BODY = b\<close> followed by a blank: the body
  returned is \<open>b\<close>, without the blank.
\<close>

theorem extract_tagged_text_counterexample:
  "extract_meta_description (''META_DESCRIPTION: '' @ ''a'' @ [newline, newline] @ ''b '')
     = Inr (''a'', ''b'')
   \<and> extract_meta_description (''META_DESCRIPTION: '' @ ''a'' @ [newline, newline] @ ''b '')
     \<noteq> Inr (''a'', ''b '')"
  by code_simp

text \<open>
  C8 (as amended). For a text that does not start with the tag, the body returned is the
  text itself and the meta description has at most 160 characters. Let \<open>line\<close> be the first
  line that is not blank and does not start with \<open>#\<close>: the meta description is the
  stripped line when that has at most 157 characters, and otherwise its first 157
  characters and an ellipsis; its first 157 characters are a prefix of the stripped line.
  It is empty when there is no such line.
\<close>

theorem extract_untagged_text:
  assumes "\<not> startswith content meta_tag"
  shows "\<exists>m. extract_meta_description content = Inr (m, content) \<and> length m \<le> 160 \<and>
    (case find (\<lambda>l. strip l \<noteq> [] \<and> \<not> startswith l ''#'')
            (split_str [newline] None content) of
       None \<Rightarrow> m = []
     | Some line \<Rightarrow>
         m = (if 157 < length (strip line) then take 157 (strip line) @ ''...''
              else strip line)
         \<and> prefix (take 157 m) (strip line))"
proof -
  let ?m = "fst (fallback_description content)"
  have "extract_meta_description content = Inr (?m, content)"
    using extract_untagged[OF assms] by (simp add: fallback_description_def Let_def)
  moreover have "length ?m \<le> 160" by (rule fallback_length)
  moreover have "(case find (\<lambda>l. strip l \<noteq> [] \<and> \<not> startswith l ''#'')
            (split_str [newline] None content) of
       None \<Rightarrow> ?m = []
     | Some line \<Rightarrow>
         ?m = (if 157 < length (strip line) then take 157 (strip line) @ ''...''
              else strip line)
         \<and> prefix (take 157 ?m) (strip line))"
    by (auto simp: fallback_description_def Let_def first_paragraph_find take_is_prefix
             split: option.splits)
  ultimately show ?thesis by blast
qed

theorem extract_untagged_text_witness:
  "\<not> startswith (''# Title'' @ [newline, newline] @ ''  First paragraph.  '') meta_tag
   \<and> extract_meta_description (''# Title'' @ [newline, newline] @ ''  First paragraph.  '')
       = Inr (''First paragraph.'',
              ''# Title'' @ [newline, newline] @ ''  First paragraph.  '')
   \<and> find (\<lambda>l. strip l \<noteq> [] \<and> \<not> startswith l ''#'')
        (split_str [newline] None
           (''# Title'' @ [newline, newline] @ ''  First paragraph.  ''))
       = Some ''  First paragraph.  ''"
proof -
  let ?c = "''# Title'' @ [newline, newline] @ ''  First paragraph.  ''"
  have a: "\<not> startswith ?c meta_tag" by code_simp
  have b: "find (\<lambda>l. strip l \<noteq> [] \<and> \<not> startswith l ''#'') (split_str [newline] None ?c)
       = Some ''  First paragraph.  ''" by code_simp
  have c: "strip ''  First paragraph.  '' = ''First paragraph.''" by code_simp
  from extract_untagged_text[OF a]
  obtain m where m: "extract_meta_description ?c = Inr (m, ?c)"
    and "case find (\<lambda>l. strip l \<noteq> [] \<and> \<not> startswith l ''#'')
                (split_str [newline] None ?c) of
       None \<Rightarrow> m = []
     | Some line \<Rightarrow>
         m = (if 157 < length (strip line) then take 157 (strip line) @ ''...''
              else strip line)
         \<and> prefix (take 157 m) (strip line)" by blast
  then have "m = ''First paragraph.''" unfolding b by (simp add: c)
  with m a b show ?thesis by blast
qed

text \<open>
  The claim as stated fails on a line that begins with a blank: for the text \<open> hello\<close> the
  meta description is \<open>hello\<close>, which is not a prefix of the line.
\<close>

theorem extract_untagged_text_counterexample:
  "\<not> startswith '' hello'' meta_tag
   \<and> extract_meta_description '' hello'' = Inr (''hello'', '' hello'')
   \<and> find (\<lambda>l. strip l \<noteq> [] \<and> \<not> startswith l ''#'') (split_str [newline] None '' hello'')
       = Some '' hello''
   \<and> \<not> prefix ''hello'' '' hello''"
  by code_simp

section \<open>The file name of a post\<close>

lemma engine_slug_hello: "engine_slug ''Hello, World! 2025'' = ''helloworld2025''"
  by code_simp

lemma safe_filename_hello: "safe_filename ''Hello, World! 2025'' 50 = ''hello-world-2025''"
  by code_simp

text \<open>
  C1. For the title \<open>Hello, World! 2025\<close> the writer's file name is the time stamp followed
  by \<open>_helloworld2025.md\<close>, at every time of day: the two substitutions of
  \<open>_save_blog_post\<close> remove the blanks instead of turning them into hyphens, so the name
  has no hyphen, while \<open>utils.safe_filename\<close> gives \<open>hello-world-2025\<close> on the same title.
\<close>

theorem save_blog_post_filename_hello_world:
  "post_filename dt ''Hello, World! 2025'' = strftime_compact dt @ ''_helloworld2025.md''
   \<and> engine_slug ''Hello, World! 2025'' = ''helloworld2025''
   \<and> safe_filename ''Hello, World! 2025'' 50 = ''hello-world-2025''"
  by (simp add: post_filename_def engine_slug_hello safe_filename_hello)

section \<open>The fallback HTML conversion\<close>

lemma split_str_set: "x \<in> set (split_str sep k s) \<Longrightarrow> set x \<subseteq> set s"
proof (induction sep k s arbitrary: x rule: split_str.induct)
  case (1 sep k s)
  show ?case
  proof (cases "sep = [] \<or> k = Some 0")
    case True
    with "1.prems" show ?thesis by (subst (asm) split_str.simps) simp
  next
    case False
    show ?thesis
    proof (cases "find_str sep s")
      case None
      with "1.prems" show ?thesis by (simp add: find_str_None_split)
    next
      case (Some i)
      with False "1.prems" have "x = take i s \<or>
          x \<in> set (split_str sep (map_option (\<lambda>n. n - 1) k) (drop (i + length sep) s))"
        by (subst (asm) split_str.simps) simp
      then show ?thesis
      proof
        assume "x = take i s"
        then show ?thesis by (simp add: set_take_subset)
      next
        assume "x \<in> set (split_str sep (map_option (\<lambda>n. n - 1) k) (drop (i + length sep) s))"
        from "1.IH"[OF False Some this] show ?thesis
          using set_drop_subset[of "i + length sep" s] by blast
      qed
    qed
  qed
qed

lemma strip_chars_set: "set (strip_chars P s) \<subseteq> set s"
proof -
  have "set (dropWhile P (rev (dropWhile P s))) \<subseteq> set (rev (dropWhile P s))"
    by (auto dest: set_dropWhileD)
  also have "\<dots> \<subseteq> set s" by (auto dest: set_dropWhileD)
  finally show ?thesis by (simp add: strip_chars_def)
qed

lemma join_set: "set (join sep xs) \<subseteq> set sep \<union> \<Union> (set ` set xs)"
  by (induction sep xs rule: join.induct) auto

lemma startswith_hd: "startswith s (c # m) \<Longrightarrow> c \<in> set s"
  by (cases s) (auto simp: startswith_def)

lemma sub_header_line_plain:
  "CHR ''#'' \<notin> set line \<Longrightarrow> sub_header_line (CHR ''#'' # m) tag line = line"
  using startswith_hd[of line "CHR ''#''" m] by (auto simp: sub_header_line_def)

lemma sub_header_plain:
  assumes "CHR ''#'' \<notin> set s"
  shows "set (sub_header (CHR ''#'' # m) tag s) \<subseteq> set s \<union> {newline}"
proof -
  let ?lines = "split_str [newline] None s"
  have nohash: "\<forall>l\<in>set ?lines. CHR ''#'' \<notin> set l"
    using assms split_str_set by blast
  have "map (sub_header_line (CHR ''#'' # m) tag) ?lines = ?lines"
  proof (rule map_idI)
    fix l assume "l \<in> set ?lines"
    with nohash have "CHR ''#'' \<notin> set l" by blast
    then show "sub_header_line (CHR ''#'' # m) tag l = l" by (rule sub_header_line_plain)
  qed
  then have "sub_header (CHR ''#'' # m) tag s = join [newline] ?lines"
    by (simp add: sub_header_def)
  moreover have "set (join [newline] ?lines) \<subseteq> set [newline] \<union> \<Union> (set ` set ?lines)"
    by (rule join_set)
  moreover have "\<Union> (set ` set ?lines) \<subseteq> set s"
    using split_str_set by blast
  ultimately show ?thesis by auto
qed

lemma sub_emphasis_plain:
  "CHR ''*'' \<notin> set s \<Longrightarrow> sub_emphasis (CHR ''*'' # d) tag s = s"
proof (induction s)
  case Nil
  then show ?case by simp
next
  case (Cons c cs)
  then have "\<not> startswith (c # cs) (CHR ''*'' # d)"
    using startswith_hd[of "c # cs" "CHR ''*''" d] by blast
  with Cons show ?case by simp
qed


lemma paragraph_loop_plain:
  "\<forall>p\<in>set ps. CHR ''<'' \<notin> set (strip p) \<Longrightarrow> paragraph_loop ps acc = acc"
proof (induction ps arbitrary: acc)
  case Nil
  then show ?case by simp
next
  case (Cons p ps)
  then have "\<not> startswith (strip p) ''<''"
    using startswith_hd[of "strip p" "CHR ''<''" "[]"] by auto
  with Cons show ?case by (simp add: Let_def)
qed

lemma strip_front_matter_set:
  "\<exists>r. strip_front_matter s = Inr r \<and> set r \<subseteq> set s"
proof (cases "startswith s ''---'' \<and> 3 \<le> length (split_str ''---'' (Some 2) s)")
  case True
  let ?parts = "split_str ''---'' (Some 2) s"
  from True have "?parts ! 2 \<in> set ?parts" by simp
  then have "set (?parts ! 2) \<subseteq> set s" by (rule split_str_set)
  then have "set (strip (?parts ! 2)) \<subseteq> set s"
    unfolding strip_def using strip_chars_set by blast
  with True show ?thesis
    by (simp add: strip_front_matter_def item_def Let_def)
next
  case False
  then show ?thesis by (auto simp: strip_front_matter_def Let_def)
qed


lemma sub_header_keeps:
  assumes "c \<noteq> newline" and "c \<notin> set s" and "CHR ''#'' \<notin> set s"
  shows "c \<notin> set (sub_header (CHR ''#'' # m) tag s)"
proof
  assume "c \<in> set (sub_header (CHR ''#'' # m) tag s)"
  with sub_header_plain[OF assms(3), of m tag] have "c \<in> set s \<union> {newline}" by blast
  with assms(1,2) show False by simp
qed

lemma simple_markdown_to_html_plain:
  assumes lt: "CHR ''<'' \<notin> set markdown_content"
      and hash: "CHR ''#'' \<notin> set markdown_content"
      and star: "CHR ''*'' \<notin> set markdown_content"
  shows "simple_markdown_to_html markdown_content = Inr []"
proof -
  obtain r where r: "strip_front_matter markdown_content = Inr r"
    and rs: "set r \<subseteq> set markdown_content"
    using strip_front_matter_set by blast
  define h3 where "h3 = sub_header (CHR ''#'' # ''## '') ''h3'' r"
  define h2 where "h2 = sub_header (CHR ''#'' # ''# '') ''h2'' h3"
  define h1 where "h1 = sub_header (CHR ''#'' # '' '') ''h1'' h2"
  have n: "CHR ''<'' \<noteq> newline" "CHR ''#'' \<noteq> newline" "CHR ''*'' \<noteq> newline"
    by (simp_all add: newline_def)
  have r0: "CHR ''<'' \<notin> set r" "CHR ''#'' \<notin> set r" "CHR ''*'' \<notin> set r"
    using lt hash star rs by blast+
  have r3: "CHR ''<'' \<notin> set h3" "CHR ''#'' \<notin> set h3" "CHR ''*'' \<notin> set h3"
    unfolding h3_def
    by (rule sub_header_keeps[OF n(1) r0(1) r0(2)], rule sub_header_keeps[OF n(2) r0(2) r0(2)],
        rule sub_header_keeps[OF n(3) r0(3) r0(2)])
  have r2: "CHR ''<'' \<notin> set h2" "CHR ''#'' \<notin> set h2" "CHR ''*'' \<notin> set h2"
    unfolding h2_def
    by (rule sub_header_keeps[OF n(1) r3(1) r3(2)], rule sub_header_keeps[OF n(2) r3(2) r3(2)],
        rule sub_header_keeps[OF n(3) r3(3) r3(2)])
  have r1: "CHR ''<'' \<notin> set h1" "CHR ''#'' \<notin> set h1" "CHR ''*'' \<notin> set h1"
    unfolding h1_def
    by (rule sub_header_keeps[OF n(1) r2(1) r2(2)], rule sub_header_keeps[OF n(2) r2(2) r2(2)],
        rule sub_header_keeps[OF n(3) r2(3) r2(2)])
  have e1: "sub_emphasis (CHR ''*'' # ''*'') ''strong'' h1 = h1"
    using r1(3) by (rule sub_emphasis_plain)
  have e2: "sub_emphasis (CHR ''*'' # []) ''em'' h1 = h1"
    using r1(3) by (rule sub_emphasis_plain)
  have "\<forall>p\<in>set (split_str [newline, newline] None h1). CHR ''<'' \<notin> set (strip p)"
  proof
    fix p assume "p \<in> set (split_str [newline, newline] None h1)"
    then have "set p \<subseteq> set h1" by (rule split_str_set)
    moreover have "set (strip p) \<subseteq> set p"
      unfolding strip_def by (rule strip_chars_set)
    ultimately show "CHR ''<'' \<notin> set (strip p)" using r1(1) by blast
  qed
  then have pl: "paragraph_loop (split_str [newline, newline] None h1) [] = []"
    by (rule paragraph_loop_plain)
  have "simple_markdown_to_html markdown_content =
      Inr (join [newline] (paragraph_loop (split_str [newline, newline] None
        (sub_emphasis (CHR ''*'' # []) ''em'' (sub_emphasis (CHR ''*'' # ''*'') ''strong'' h1))) []))"
    unfolding simple_markdown_to_html_def r h1_def h2_def h3_def Let_def by simp
  then show ?thesis unfolding e1 e2 pl by simp
qed

text \<open>
  C2. On a text with none of the characters \<open><\<close>, \<open>#\<close> and \<open>*\<close> (plain text, no markup) the
  fallback conversion returns normally, and what it returns is the empty string: the
  paragraph loop wraps each paragraph and does not append it.
\<close>

theorem simple_markdown_to_html_plain_text_empty:
  assumes "CHR ''<'' \<notin> set markdown_content"
      and "CHR ''#'' \<notin> set markdown_content"
      and "CHR ''*'' \<notin> set markdown_content"
  shows "simple_markdown_to_html markdown_content = Inr []"
  using assms by (rule simple_markdown_to_html_plain)

theorem simple_markdown_to_html_plain_text_empty_witness:
  "CHR ''<'' \<notin> set ''hello'' \<and> CHR ''#'' \<notin> set ''hello'' \<and> CHR ''*'' \<notin> set ''hello''
   \<and> simple_markdown_to_html ''hello'' = Inr []"
proof -
  have a: "CHR ''<'' \<notin> set ''hello''" by simp
  have b: "CHR ''#'' \<notin> set ''hello''" by simp
  have c: "CHR ''*'' \<notin> set ''hello''" by simp
  from simple_markdown_to_html_plain_text_empty[OF a b c] a b c show ?thesis by blast
qed

section \<open>The writer's slug and \<open>utils.safe_filename\<close>\<close>

lemma sub_spaces_id: "\<forall>c\<in>set s. \<not> is_space c \<Longrightarrow> sub_spaces s = s"
  by (induction s) auto

lemma sub_backslash_s_id: "\<forall>c\<in>set s. c \<noteq> backslash \<Longrightarrow> sub_backslash_s s = s"
  by (induction s) auto

lemma kept_same:
  "\<not> is_space c \<Longrightarrow> c \<noteq> backslash \<Longrightarrow> kept_by_utils c = kept_by_engine c"
  by (auto simp: kept_by_utils_def kept_by_engine_def is_ascii_lower_def)

text \<open>On a title with no whitespace and no backslash the two computations differ only by
  the hyphens that \<open>safe_filename\<close> strips at both ends.\<close>

lemma safe_filename_without_whitespace:
  assumes "\<forall>c\<in>set name. \<not> is_space c \<and> c \<noteq> backslash"
  shows "safe_filename name 50 = strip_chars (\<lambda>c. c = hyphen) (engine_slug name)"
proof -
  have f: "filter kept_by_utils name = filter kept_by_engine name"
    using assms by (intro filter_cong) (auto simp: kept_same)
  let ?f = "filter kept_by_engine name"
  have ns: "\<forall>c\<in>set ?f. \<not> is_space c" and nb: "\<forall>c\<in>set ?f. c \<noteq> backslash"
    using assms by auto
  have s: "strip ?f = ?f"
    unfolding strip_def using ns by (rule strip_chars_id)
  show ?thesis
    by (simp add: safe_filename_def engine_slug_def f s sub_spaces_id[OF ns]
        sub_backslash_s_id[OF nb])
qed

text \<open>
  C10. The two computations disagree as soon as the title has a blank between two words:
  for \<open>a b\<close> the writer's slug is \<open>ab\<close>, because its two substitutions delete the blank
  instead of turning it into a hyphen, and \<open>safe_filename\<close> gives \<open>a-b\<close>. Stripping the
  hyphens at both ends of the writer's slug does not make them equal, so the difference
  is not the stripping that \<open>safe_filename\<close> adds. The same holds for the title
  \<open>Hello, World! 2025\<close>.
\<close>

theorem safe_filename_differs_from_engine_slug:
  "engine_slug ''a b'' = ''ab''
   \<and> safe_filename ''a b'' 50 = ''a-b''
   \<and> strip_chars (\<lambda>c. c = hyphen) (engine_slug ''a b'') = ''ab''
   \<and> strip_chars (\<lambda>c. c = hyphen) (engine_slug ''Hello, World! 2025'') = ''helloworld2025''
   \<and> safe_filename ''Hello, World! 2025'' 50 = ''hello-world-2025''"
  by code_simp

section \<open>Facts about the orchestrator\<close>

lemma count_events_Nil [simp]: "count_events P [] = 0"
  by (simp add: count_events_def)

lemma count_events_Cons [simp]:
  "count_events P (ev # evs) = (if P ev then 1 else 0) + count_events P evs"
  by (simp add: count_events_def)

lemma count_events_append [simp]:
  "count_events P (xs @ ys) = count_events P xs + count_events P ys"
  by (simp add: count_events_def)

lemma attempted_append [simp]: "attempted (xs @ ys) = attempted xs @ attempted ys"
  by (induction xs rule: attempted.induct) auto

lemma trace_emit [simp]: "trace (emit ev s) = trace s @ [ev]"
  by (simp add: emit_def)

lemma generate_ai_content_events:
  assumes "generate_ai_content C t s = (a, s')"
  shows "\<exists>r. trace s' = trace s @ [Completion t r] \<and> isl a = isl r"
  using assms
  by (auto simp: generate_ai_content_def call_completion_def Let_def
           split: prod.splits sum.splits)

lemma save_blog_post_events:
  assumes "save_blog_post C eng t body meta s = (f, s')"
  shows "\<exists>p c r. trace s' = trace s @ [Write p c r] \<and> isl f = isl r"
  using assms
  by (auto simp: save_blog_post_def call_clock_def call_write_def Let_def
           split: prod.splits sum.splits)

lemma publish_events:
  assumes "publish_to_wordpress C eng t c m s = (res, s')"
  shows "\<exists>evs. trace s' = trace s @ evs
     \<and> attempted evs = []
     \<and> count_events is_write_ok evs = 0
     \<and> count_events is_write_call evs = 0
     \<and> count_events is_write_failed evs = 0
     \<and> count_events is_completion_failed evs = 0
     \<and> count_events is_completion_call evs = 0
     \<and> count_events is_new_post_call evs \<le> 1
     \<and> count_events is_post_ok evs = (case res of None \<Rightarrow> 0 | Some i \<Rightarrow> if i \<noteq> 0 then 1 else 0)
     \<and> (wordpress_enabled eng \<or> evs = [])"
  using assms
  by (auto simp: publish_to_wordpress_def markdown_to_html_def create_post_def
        call_new_post_def Let_def
      split: prod.splits sum.splits option.splits if_splits)


lemma report_publish_events:
  assumes "report_publish label res p s = (p', s')"
  shows "\<exists>msg. (trace s' = trace s @ [Print_success msg] \<or> trace s' = trace s @ [Print_error msg])
     \<and> p' = p + (case res of None \<Rightarrow> 0 | Some i \<Rightarrow> if i \<noteq> 0 then 1 else 0)"
  using assms by (auto simp: report_publish_def split: option.splits if_splits)

lemma batch_body_events:
  assumes "batch_body C eng t (g, p) s = ((raised, (g', p')), s')"
  shows "\<exists>evs. trace s' = trace s @ evs \<and> attempted evs = [t]
     \<and> g' = g + count_events is_write_ok evs
     \<and> p' = p + count_events is_post_ok evs
     \<and> count_events is_write_ok evs + count_events is_completion_failed evs
         + count_events is_write_failed evs = 1
     \<and> count_events is_write_call evs \<le> 1
     \<and> count_events is_new_post_call evs \<le> count_events is_write_ok evs
     \<and> count_events is_completion_call evs = 1
     \<and> (raised = None) = (count_events is_write_ok evs = 1)
     \<and> (wordpress_enabled eng \<or> count_events is_new_post_call evs = 0)"
proof -
  let ?s0 = "emit (Print_info (''Generating: '' @ title t)) s"
  obtain a s1 where gen: "generate_ai_content C t ?s0 = (a, s1)" by fastforce
  from generate_ai_content_events[OF gen] obtain r where
    t1: "trace s1 = trace s @ [Print_info (''Generating: '' @ title t), Completion t r]"
    and ar: "isl a = isl r" by auto
  show ?thesis
  proof (cases a)
    case (Inl e)
    with ar obtain e' where r: "r = Inl e'" by (cases r) auto
    from assms Inl gen have "raised = Some e" "g' = g" "p' = p" "s' = s1"
      by (auto simp: batch_body_def Let_def)
    with t1 r show ?thesis by auto
  next
    case (Inr ai_content)
    with ar obtain raw where r: "r = Inr raw" by (cases r) auto
    obtain m b where ext: "extract_meta_description ai_content = Inr (m, b)"
      using extract_total by blast
    obtain f s2 where save: "save_blog_post C eng t b m s1 = (f, s2)" by fastforce
    from save_blog_post_events[OF save] obtain path written w where
      t2: "trace s2 = trace s1 @ [Write path written w]" and fw: "isl f = isl w" by auto
    show ?thesis
    proof (cases f)
      case (Inl e)
      with fw obtain e' where w: "w = Inl e'" by (cases w) auto
      from assms Inr gen ext save Inl have "raised = Some e" "g' = g" "p' = p" "s' = s2"
        by (auto simp: batch_body_def Let_def)
      with t1 t2 r w show ?thesis by auto
    next
      case fr: (Inr filename)
      with fw obtain u where w: "w = Inr u" by (cases w) auto
      let ?s3 = "emit (Print_success (''Markdown: '' @ filename)) s2"
      show ?thesis
      proof (cases "wordpress_enabled eng")
        case False
        from assms Inr gen ext save fr False
        have "raised = None" "g' = g + 1" "p' = p"
          "s' = emit (Print (replicate 50 (CHR ''-''))) ?s3"
          by (auto simp: batch_body_def Let_def)
        with t1 t2 r w False show ?thesis by auto
      next
        case True
        obtain res s4 where pub: "publish_to_wordpress C eng t b m ?s3 = (res, s4)"
          by fastforce
        obtain q s5 where rep: "report_publish ''WordPress ID: '' res p s4 = (q, s5)"
          by fastforce
        from publish_events[OF pub] obtain pevs where
          t4: "trace s4 = trace ?s3 @ pevs" and pa: "attempted pevs = []"
          and p1: "count_events is_write_ok pevs = 0"
          and p2: "count_events is_write_call pevs = 0"
          and p3: "count_events is_write_failed pevs = 0"
          and p4: "count_events is_completion_failed pevs = 0"
          and p5: "count_events is_completion_call pevs = 0"
          and p6: "count_events is_new_post_call pevs \<le> 1"
          and p7: "count_events is_post_ok pevs
                     = (case res of None \<Rightarrow> 0 | Some i \<Rightarrow> if i \<noteq> 0 then 1 else 0)"
          by blast
        from report_publish_events[OF rep] obtain msg where
          t5: "trace s5 = trace s4 @ [Print_success msg] \<or> trace s5 = trace s4 @ [Print_error msg]"
          and q: "q = p + (case res of None \<Rightarrow> 0 | Some i \<Rightarrow> if i \<noteq> 0 then 1 else 0)"
          by blast
        from assms Inr gen ext save fr True pub rep
        have res: "raised = None" "g' = g + 1" "p' = q"
          "s' = emit (Print (replicate 50 (CHR ''-''))) s5"
          by (auto simp: batch_body_def Let_def)
        from t5 show ?thesis
        proof
          assume "trace s5 = trace s4 @ [Print_success msg]"
          with res t1 t2 t4 r w q pa p1 p2 p3 p4 p5 p6 p7 True show ?thesis by auto
        next
          assume "trace s5 = trace s4 @ [Print_error msg]"
          with res t1 t2 t4 r w q pa p1 p2 p3 p4 p5 p6 p7 True show ?thesis by auto
        qed
      qed
    qed
  qed
qed


lemma batch_loop_events:
  "batch_loop C eng ts (g, p) s = ((g', p'), s') \<Longrightarrow>
   \<exists>evs. trace s' = trace s @ evs \<and> attempted evs = ts
     \<and> g' = g + count_events is_write_ok evs
     \<and> p' = p + count_events is_post_ok evs
     \<and> count_events is_write_ok evs + count_events is_completion_failed evs
         + count_events is_write_failed evs = length ts
     \<and> count_events is_write_call evs \<le> length ts
     \<and> count_events is_new_post_call evs \<le> count_events is_write_ok evs
     \<and> count_events is_completion_call evs = length ts
     \<and> (wordpress_enabled eng \<or> count_events is_new_post_call evs = 0)"
proof (induction ts arbitrary: g p s)
  case Nil
  then show ?case by simp
next
  case (Cons t ts)
  obtain raised g1 p1 s1 where body: "batch_body C eng t (g, p) s = ((raised, (g1, p1)), s1)"
    by (metis prod.exhaust)
  let ?s2 = "case raised of None \<Rightarrow> s1
     | Some e \<Rightarrow> emit (Print_error (''Failed to generate '' @ title t @ '': ''
                           @ error_message e)) s1"
  from Cons.prems body have loop: "batch_loop C eng ts (g1, p1) ?s2 = ((g', p'), s')"
    by simp
  from batch_body_events[OF body] obtain e1 where
    b: "trace s1 = trace s @ e1" "attempted e1 = [t]"
       "g1 = g + count_events is_write_ok e1"
       "p1 = p + count_events is_post_ok e1"
       "count_events is_write_ok e1 + count_events is_completion_failed e1
         + count_events is_write_failed e1 = 1"
       "count_events is_write_call e1 \<le> 1"
       "count_events is_new_post_call e1 \<le> count_events is_write_ok e1"
       "count_events is_completion_call e1 = 1"
       "wordpress_enabled eng \<or> count_events is_new_post_call e1 = 0"
    by blast
  obtain e2 where h: "trace ?s2 = trace s1 @ e2" "attempted e2 = []"
       "count_events is_write_ok e2 = 0" "count_events is_post_ok e2 = 0"
       "count_events is_completion_failed e2 = 0" "count_events is_write_failed e2 = 0"
       "count_events is_write_call e2 = 0" "count_events is_new_post_call e2 = 0"
       "count_events is_completion_call e2 = 0"
    by (cases raised) auto
  from Cons.IH[OF loop] obtain e3 where
    l: "trace s' = trace ?s2 @ e3" "attempted e3 = ts"
       "g' = g1 + count_events is_write_ok e3"
       "p' = p1 + count_events is_post_ok e3"
       "count_events is_write_ok e3 + count_events is_completion_failed e3
         + count_events is_write_failed e3 = length ts"
       "count_events is_write_call e3 \<le> length ts"
       "count_events is_new_post_call e3 \<le> count_events is_write_ok e3"
       "count_events is_completion_call e3 = length ts"
       "wordpress_enabled eng \<or> count_events is_new_post_call e3 = 0"
    by blast
  have "trace s' = trace s @ (e1 @ e2 @ e3)" using b(1) h(1) l(1) by simp
  moreover have "attempted (e1 @ e2 @ e3) = t # ts" using b(2) h(2) l(2) by simp
  moreover have "g' = g + count_events is_write_ok (e1 @ e2 @ e3)"
    using b(3) h(3) l(3) by simp
  moreover have "p' = p + count_events is_post_ok (e1 @ e2 @ e3)"
    using b(4) h(4) l(4) by simp
  moreover have "count_events is_write_ok (e1 @ e2 @ e3)
      + count_events is_completion_failed (e1 @ e2 @ e3)
      + count_events is_write_failed (e1 @ e2 @ e3) = length (t # ts)"
    using b(5) h(3,5,6) l(5) by simp
  moreover have "count_events is_write_call (e1 @ e2 @ e3) \<le> length (t # ts)"
    using b(6) h(7) l(6) by simp
  moreover have "count_events is_new_post_call (e1 @ e2 @ e3)
      \<le> count_events is_write_ok (e1 @ e2 @ e3)"
    using b(7) h(3,8) l(7) by simp
  moreover have "count_events is_completion_call (e1 @ e2 @ e3) = length (t # ts)"
    using b(8) h(9) l(8) by simp
  moreover have "wordpress_enabled eng \<or> count_events is_new_post_call (e1 @ e2 @ e3) = 0"
    using b(9) h(8) l(9) by auto
  ultimately show ?case by blast
qed

lemma generate_all_events:
  assumes "generate_all_blog_posts C eng s = ((g, p), s')"
  shows "\<exists>evs. trace s' = trace s @ evs \<and> attempted evs = sheet_data eng
     \<and> g = count_events is_write_ok evs
     \<and> p = count_events is_post_ok evs
     \<and> count_events is_write_ok evs + count_events is_completion_failed evs
         + count_events is_write_failed evs = length (sheet_data eng)
     \<and> count_events is_write_call evs \<le> length (sheet_data eng)
     \<and> count_events is_new_post_call evs \<le> count_events is_write_ok evs
     \<and> count_events is_completion_call evs = length (sheet_data eng)
     \<and> (wordpress_enabled eng \<or> count_events is_new_post_call evs = 0)
     \<and> Print_success (''Generated: '' @ str_nat g @ ''/''
           @ str_nat (length (sheet_data eng)) @ '' markdown files'') \<in> set evs"
proof -
  let ?total = "str_nat (length (sheet_data eng))"
  let ?s0 = "emit (Print_info (''BEAST MODE ACTIVATED! Generating '' @ ?total
                      @ '' blog posts...'')) s"
  let ?s1 = "if wordpress_enabled eng
             then emit (Print_info ''WordPress publishing is ENABLED for all posts!'') ?s0
             else ?s0"
  obtain g1 p1 s2 where loop: "batch_loop C eng (sheet_data eng) (0, 0) ?s1 = ((g1, p1), s2)"
    by (metis prod.exhaust)
  let ?s3 = "emit (Print_success (''Generated: '' @ str_nat g1 @ ''/'' @ ?total
                      @ '' markdown files'')) (emit (Print_success ''BEAST MODE COMPLETE!'') s2)"
  let ?s4 = "if wordpress_enabled eng
             then emit (Print_success (''Published: '' @ str_nat p1 @ ''/''
                            @ ?total @ '' WordPress posts'')) ?s3
             else ?s3"
  have "generate_all_blog_posts C eng s = ((g1, p1), ?s4)"
    unfolding generate_all_blog_posts_def Let_def loop by (simp only: split_conv)
  with assms have res: "g = g1" "p = p1" "s' = ?s4"
    by simp_all
  obtain e0 where h0: "trace ?s1 = trace s @ e0" "attempted e0 = []"
       "count_events is_write_ok e0 = 0" "count_events is_post_ok e0 = 0"
       "count_events is_completion_failed e0 = 0" "count_events is_write_failed e0 = 0"
       "count_events is_write_call e0 = 0" "count_events is_new_post_call e0 = 0"
       "count_events is_completion_call e0 = 0"
    by (cases "wordpress_enabled eng") auto
  from batch_loop_events[OF loop] obtain e1 where
    l: "trace s2 = trace ?s1 @ e1" "attempted e1 = sheet_data eng"
       "g1 = 0 + count_events is_write_ok e1"
       "p1 = 0 + count_events is_post_ok e1"
       "count_events is_write_ok e1 + count_events is_completion_failed e1
         + count_events is_write_failed e1 = length (sheet_data eng)"
       "count_events is_write_call e1 \<le> length (sheet_data eng)"
       "count_events is_new_post_call e1 \<le> count_events is_write_ok e1"
       "count_events is_completion_call e1 = length (sheet_data eng)"
       "wordpress_enabled eng \<or> count_events is_new_post_call e1 = 0"
    by blast
  obtain e2 where h2: "trace ?s4 = trace s2 @ e2" "attempted e2 = []"
       "count_events is_write_ok e2 = 0" "count_events is_post_ok e2 = 0"
       "count_events is_completion_failed e2 = 0" "count_events is_write_failed e2 = 0"
       "count_events is_write_call e2 = 0" "count_events is_new_post_call e2 = 0"
       "count_events is_completion_call e2 = 0"
       "Print_success (''Generated: '' @ str_nat g1 @ ''/'' @ ?total
                      @ '' markdown files'') \<in> set e2"
    by (cases "wordpress_enabled eng") auto
  have "trace s' = trace s @ (e0 @ e1 @ e2)" using res(3) h0(1) l(1) h2(1) by simp
  moreover have "attempted (e0 @ e1 @ e2) = sheet_data eng" using h0(2) l(2) h2(2) by simp
  moreover have "g = count_events is_write_ok (e0 @ e1 @ e2)"
    using res(1) h0(3) l(3) h2(3) by simp
  moreover have "p = count_events is_post_ok (e0 @ e1 @ e2)"
    using res(2) h0(4) l(4) h2(4) by simp
  moreover have "count_events is_write_ok (e0 @ e1 @ e2)
      + count_events is_completion_failed (e0 @ e1 @ e2)
      + count_events is_write_failed (e0 @ e1 @ e2) = length (sheet_data eng)"
    using h0(3,5,6) l(5) h2(3,5,6) by simp
  moreover have "count_events is_write_call (e0 @ e1 @ e2) \<le> length (sheet_data eng)"
    using h0(7) l(6) h2(7) by simp
  moreover have "count_events is_new_post_call (e0 @ e1 @ e2)
      \<le> count_events is_write_ok (e0 @ e1 @ e2)"
    using h0(3,8) l(7) h2(3,8) by simp
  moreover have "count_events is_completion_call (e0 @ e1 @ e2) = length (sheet_data eng)"
    using h0(9) l(8) h2(9) by simp
  moreover have "wordpress_enabled eng \<or> count_events is_new_post_call (e0 @ e1 @ e2) = 0"
    using h0(8) l(9) h2(8) by auto
  moreover have "Print_success (''Generated: '' @ str_nat g @ ''/''
           @ ?total @ '' markdown files'') \<in> set (e0 @ e1 @ e2)"
    using h2(10) res(1) by simp
  ultimately show ?thesis by blast
qed

lemma new_events_append: "trace s' = trace s @ evs \<Longrightarrow> new_events s s' = evs"
  by (simp add: new_events_def)

text \<open>The events of each operation, exactly.\<close>

lemma generate_ai_content_shape:
  assumes "generate_ai_content C t s = (a, s')"
  shows "\<exists>r. trace s' = trace s @ [Completion t r]
     \<and> a = (case r of Inl e \<Rightarrow> Inl (Exception (''AI generation failed: '' @ error_message e))
                     | Inr raw \<Rightarrow> Inr (strip raw))"
proof -
  obtain r w where 1: "chat_completion C t (world s) = (r, w)" by fastforce
  from assms have "trace s' = trace s @ [Completion t r]
     \<and> a = (case r of Inl e \<Rightarrow> Inl (Exception (''AI generation failed: '' @ error_message e))
                     | Inr raw \<Rightarrow> Inr (strip raw))"
    by (cases r)
       (auto simp: generate_ai_content_def call_completion_def emit_def Let_def 1)
  then show ?thesis by blast
qed

lemma save_blog_post_shape:
  assumes "save_blog_post C eng t b m s = (f, s')"
  shows "\<exists>stamp date w.
     trace s' = trace s @ [Write (path_join (output_dir eng) (post_filename stamp (title t)))
                                 (front_matter eng t m date @ b) w]
     \<and> f = (case w of
              Inl e \<Rightarrow> Inl (Exception (''Failed to save markdown file: '' @ error_message e))
            | Inr u \<Rightarrow> Inr (path_join (output_dir eng) (post_filename stamp (title t))))"
proof -
  obtain stamp w1 where 1: "clock C (world s) = (stamp, w1)" by fastforce
  obtain date w2 where 2: "clock C w1 = (date, w2)" by fastforce
  obtain w w3 where 3:
    "write_file C (path_join (output_dir eng) (post_filename stamp (title t)))
       (front_matter eng t m date @ b) w2 = (w, w3)"
    by fastforce
  from assms have "trace s' = trace s @ [Write (path_join (output_dir eng) (post_filename stamp (title t)))
                                 (front_matter eng t m date @ b) w]
     \<and> f = (case w of
              Inl e \<Rightarrow> Inl (Exception (''Failed to save markdown file: '' @ error_message e))
            | Inr u \<Rightarrow> Inr (path_join (output_dir eng) (post_filename stamp (title t))))"
    by (cases w)
       (auto simp: save_blog_post_def call_clock_def call_write_def emit_def Let_def 1 2 3)
  then show ?thesis by blast
qed

lemma markdown_to_html_shape:
  assumes "markdown_to_html C c s = (h, s')"
  shows "\<exists>ev. trace s' = trace s @ [ev] \<and> \<not> is_call ev"
  using assms
  by (auto simp: markdown_to_html_def Let_def split: sum.splits)

lemma create_post_shape:
  assumes "create_post C client name content status m s = (r, s')"
  shows "(s' = s \<and> (\<exists>e. r = Inl e))
     \<or> (\<exists>post w. trace s' = trace s @ [New_post post w] \<and> post_title post = name
           \<and> r = (case w of
                    Inl e \<Rightarrow> Inl (Exception (''Failed to create WordPress post: ''
                                              @ error_message e))
                  | Inr i \<Rightarrow> Inr i))"
proof (cases "client_set client")
  case False
  with assms show ?thesis by (auto simp: create_post_def)
next
  case True
  define post where "post = \<lparr>post_title = name, post_content = content, post_status = status,
                     excerpt =
                       (if m \<noteq> [] then m
                        else if 200 < length content then take 200 content @ ''...''
                        else content),
                     custom_fields =
                       (if m \<noteq> [] then
                          [(''_yoast_wpseo_metadesc'', m),
                           (''_aioseop_description'', m),
                           (''meta_description'', m)]
                        else [])\<rparr>"
  obtain w v where 1: "wp_new_post C post (world s) = (w, v)" by fastforce
  have pt: "post_title post = name" by (simp add: post_def)
  from assms True have "trace s' = trace s @ [New_post post w]
           \<and> r = (case w of
                    Inl e \<Rightarrow> Inl (Exception (''Failed to create WordPress post: ''
                                              @ error_message e))
                  | Inr i \<Rightarrow> Inr i)"
    unfolding create_post_def post_def[symmetric]
    by (cases w) (auto simp: call_new_post_def emit_def Let_def 1)
  with pt show ?thesis by blast
qed

lemma publish_shape:
  assumes "publish_to_wordpress C eng t c m s = (res, s')"
  shows "\<exists>pub. trace s' = trace s @ pub
     \<and> (\<not> wordpress_enabled eng \<longrightarrow> pub = [])
     \<and> ((res = None \<and> filter is_call pub = [])
        \<or> (\<exists>post e. res = None \<and> filter is_call pub = [New_post post (Inl e)]
              \<and> post_title post = title t
              \<and> Print_error (''WordPress publishing error: Failed to create WordPress post: ''
                    @ error_message e) \<in> set pub)
        \<or> (\<exists>post i. res = Some i \<and> filter is_call pub = [New_post post (Inr i)]
              \<and> post_title post = title t))"
proof (cases "wordpress_enabled eng")
  case False
  with assms have "res = None" "s' = s" by (auto simp: publish_to_wordpress_def)
  then show ?thesis by auto
next
  case True
  show ?thesis
  proof (cases "wp_client eng")
    case None
    with assms True have "res = None" "s' = s" by (auto simp: publish_to_wordpress_def)
    then show ?thesis by auto
  next
    case (Some client)
    obtain h s1 where md: "markdown_to_html C c s = (h, s1)" by fastforce
    from markdown_to_html_shape[OF md] obtain ev where
      t1: "trace s1 = trace s @ [ev]" and ev: "\<not> is_call ev" by blast
    show ?thesis
    proof (cases h)
      case (Inl e)
      with assms True Some md have "res = None"
        "s' = emit (Print_error (''WordPress publishing error: '' @ error_message e)) s1"
        by (auto simp: publish_to_wordpress_def Let_def)
      with t1 ev True show ?thesis by auto
    next
      case (Inr html)
      obtain r s2 where cp: "create_post C client (title t) html (wp_status eng) m s1 = (r, s2)"
        by fastforce
      from create_post_shape[OF cp] show ?thesis
      proof
        assume a: "s2 = s1 \<and> (\<exists>e. r = Inl e)"
        then obtain e where r: "r = Inl e" by blast
        with assms True Some md Inr cp have "res = None"
          "s' = emit (Print_error (''WordPress publishing error: '' @ error_message e)) s2"
          by (auto simp: publish_to_wordpress_def Let_def)
        with a t1 ev True show ?thesis by auto
      next
        assume "\<exists>post w. trace s2 = trace s1 @ [New_post post w] \<and> post_title post = title t
           \<and> r = (case w of
                    Inl e \<Rightarrow> Inl (Exception (''Failed to create WordPress post: ''
                                              @ error_message e))
                  | Inr i \<Rightarrow> Inr i)"
        then obtain post w where t2: "trace s2 = trace s1 @ [New_post post w]"
          and pt: "post_title post = title t"
          and r: "r = (case w of
                    Inl e \<Rightarrow> Inl (Exception (''Failed to create WordPress post: ''
                                              @ error_message e))
                  | Inr i \<Rightarrow> Inr i)" by blast
        show ?thesis
        proof (cases w)
          case (Inl e)
          with r assms True Some md Inr cp have "res = None"
            "s' = emit (Print_error (''WordPress publishing error: ''
                     @ ''Failed to create WordPress post: '' @ error_message e)) s2"
            by (auto simp: publish_to_wordpress_def Let_def)
          with t1 t2 ev pt Inl True show ?thesis by auto
        next
          case (Inr i)
          with r assms True Some md \<open>h = Inr html\<close> cp have "res = Some i" "s' = s2"
            by (auto simp: publish_to_wordpress_def Let_def)
          with t1 t2 ev pt Inr True show ?thesis by auto
        qed
      qed
    qed
  qed
qed

lemma publish_report_shape:
  assumes "publish_to_wordpress C eng t c m s = (res, s1)"
      and "report_publish ''WordPress ID: '' res p s1 = (p', s')"
  shows "\<exists>pub. trace s' = trace s @ pub
     \<and> ((published t pub \<and> p' = p + 1) \<or> (not_published pub \<and> p' = p))"
proof -
  from publish_shape[OF assms(1)] obtain pub where
    t1: "trace s1 = trace s @ pub"
    and sh: "(res = None \<and> filter is_call pub = [])
        \<or> (\<exists>post e. res = None \<and> filter is_call pub = [New_post post (Inl e)]
              \<and> post_title post = title t
              \<and> Print_error (''WordPress publishing error: Failed to create WordPress post: ''
                    @ error_message e) \<in> set pub)
        \<or> (\<exists>post i. res = Some i \<and> filter is_call pub = [New_post post (Inr i)]
              \<and> post_title post = title t)"
    by blast
  from sh consider
      (quiet) "res = None" "filter is_call pub = []"
    | (raised) post e where "res = None" "filter is_call pub = [New_post post (Inl e)]"
        "Print_error (''WordPress publishing error: Failed to create WordPress post: ''
                    @ error_message e) \<in> set pub"
    | (created) post i where "res = Some i" "filter is_call pub = [New_post post (Inr i)]"
        "post_title post = title t"
    by blast
  then show ?thesis
  proof cases
    case quiet
    with assms(2) have "p' = p"
      "s' = emit (Print_error ''WordPress publishing failed'') s1"
      by (auto simp: report_publish_def)
    then have "trace s' = trace s @ (pub @ [Print_error ''WordPress publishing failed''])"
      using t1 by simp
    moreover have "not_published (pub @ [Print_error ''WordPress publishing failed''])"
      using quiet by simp
    ultimately show ?thesis using \<open>p' = p\<close> by blast
  next
    case raised
    with assms(2) have "p' = p"
      "s' = emit (Print_error ''WordPress publishing failed'') s1"
      by (auto simp: report_publish_def)
    then have "trace s' = trace s @ (pub @ [Print_error ''WordPress publishing failed''])"
      using t1 by simp
    moreover have "not_published (pub @ [Print_error ''WordPress publishing failed''])"
      using raised by auto
    ultimately show ?thesis using \<open>p' = p\<close> by blast
  next
    case created
    show ?thesis
    proof (cases "i = 0")
      case True
      with created assms(2) have "p' = p"
        "s' = emit (Print_error ''WordPress publishing failed'') s1"
        by (auto simp: report_publish_def)
      then have "trace s' = trace s @ (pub @ [Print_error ''WordPress publishing failed''])"
        using t1 by simp
      moreover have "not_published (pub @ [Print_error ''WordPress publishing failed''])"
        using created True by auto
      ultimately show ?thesis using \<open>p' = p\<close> by blast
    next
      case False
      with created assms(2) have "p' = p + 1"
        "s' = emit (Print_success (''WordPress ID: '' @ str_int i)) s1"
        by (auto simp: report_publish_def)
      then have "trace s' = trace s @ (pub @ [Print_success (''WordPress ID: '' @ str_int i)])"
        using t1 by simp
      moreover have "published t (pub @ [Print_success (''WordPress ID: '' @ str_int i)])"
        using created False by auto
      ultimately show ?thesis using \<open>p' = p + 1\<close> by blast
    qed
  qed
qed

lemma batch_body_shape:
  assumes "batch_body C eng t (g, p) s = ((raised, (g', p')), s')"
  shows "\<exists>evs. trace s' = trace s @ evs \<and>
    ((\<exists>e. evs = [Print_info (''Generating: '' @ title t), Completion t (Inl e)]
          \<and> raised = Some (Exception (''AI generation failed: '' @ error_message e))
          \<and> g' = g \<and> p' = p)
     \<or> (\<exists>raw m b stamp date e.
          extract_meta_description (strip raw) = Inr (m, b)
          \<and> evs = [Print_info (''Generating: '' @ title t), Completion t (Inr raw),
                    Write (path_join (output_dir eng) (post_filename stamp (title t)))
                      (front_matter eng t m date @ b) (Inl e)]
          \<and> raised = Some (Exception (''Failed to save markdown file: '' @ error_message e))
          \<and> g' = g \<and> p' = p)
     \<or> (\<exists>raw m b stamp date pub.
          extract_meta_description (strip raw) = Inr (m, b)
          \<and> evs = [Print_info (''Generating: '' @ title t), Completion t (Inr raw),
                    Write (path_join (output_dir eng) (post_filename stamp (title t)))
                      (front_matter eng t m date @ b) (Inr ()),
                    Print_success (''Markdown: ''
                      @ path_join (output_dir eng) (post_filename stamp (title t)))]
                   @ pub @ [Print (replicate 50 (CHR ''-''))]
          \<and> raised = None \<and> g' = g + 1
          \<and> (if wordpress_enabled eng
              then (published t pub \<and> p' = p + 1) \<or> (not_published pub \<and> p' = p)
              else pub = [] \<and> p' = p)))"
proof -
  let ?s0 = "emit (Print_info (''Generating: '' @ title t)) s"
  obtain a s1 where gen: "generate_ai_content C t ?s0 = (a, s1)" by fastforce
  from generate_ai_content_shape[OF gen] obtain r where
    t1: "trace s1 = trace s @ [Print_info (''Generating: '' @ title t), Completion t r]"
    and a: "a = (case r of Inl e \<Rightarrow> Inl (Exception (''AI generation failed: '' @ error_message e))
                     | Inr raw \<Rightarrow> Inr (strip raw))" by auto
  show ?thesis
  proof (cases r)
    case (Inl e)
    with a assms gen have "raised = Some (Exception (''AI generation failed: '' @ error_message e))"
      "g' = g" "p' = p" "s' = s1"
      by (auto simp: batch_body_def Let_def)
    with t1 Inl show ?thesis by blast
  next
    case (Inr raw)
    with a have a': "a = Inr (strip raw)" by simp
    obtain m b where ext: "extract_meta_description (strip raw) = Inr (m, b)"
      using extract_total by blast
    obtain f s2 where save: "save_blog_post C eng t b m s1 = (f, s2)" by fastforce
    from save_blog_post_shape[OF save] obtain stamp date w where
      t2: "trace s2 = trace s1 @ [Write (path_join (output_dir eng) (post_filename stamp (title t)))
                                 (front_matter eng t m date @ b) w]"
      and f: "f = (case w of
              Inl e \<Rightarrow> Inl (Exception (''Failed to save markdown file: '' @ error_message e))
            | Inr u \<Rightarrow> Inr (path_join (output_dir eng) (post_filename stamp (title t))))"
      by blast
    let ?path = "path_join (output_dir eng) (post_filename stamp (title t))"
    show ?thesis
    proof (cases w)
      case (Inl e)
      with f assms a' gen ext save
      have "raised = Some (Exception (''Failed to save markdown file: '' @ error_message e))"
        "g' = g" "p' = p" "s' = s2"
        by (auto simp: batch_body_def Let_def)
      moreover have "trace s2 = trace s @ [Print_info (''Generating: '' @ title t),
          Completion t (Inr raw), Write ?path (front_matter eng t m date @ b) (Inl e)]"
        using t1 t2 Inr Inl by simp
      ultimately show ?thesis using ext by blast
    next
      case wr: (Inr u)
      with f have f': "f = Inr ?path" by simp
      let ?s3 = "emit (Print_success (''Markdown: '' @ ?path)) s2"
      have t3: "trace ?s3 = trace s @ [Print_info (''Generating: '' @ title t),
          Completion t (Inr raw), Write ?path (front_matter eng t m date @ b) (Inr ()),
          Print_success (''Markdown: '' @ ?path)]"
        using t1 t2 Inr wr by simp
      show ?thesis
      proof (cases "wordpress_enabled eng")
        case False
        from assms a' gen ext save f' False
        have res: "raised = None" "g' = g + 1" "p' = p"
          "s' = emit (Print (replicate 50 (CHR ''-''))) ?s3"
          by (auto simp: batch_body_def Let_def)
        have "trace s' = trace s @ ([Print_info (''Generating: '' @ title t),
          Completion t (Inr raw), Write ?path (front_matter eng t m date @ b) (Inr ()),
          Print_success (''Markdown: '' @ ?path)] @ [] @ [Print (replicate 50 (CHR ''-''))])"
          using res(4) t3 by simp
        moreover have "if wordpress_enabled eng
              then (published t [] \<and> p' = p + 1) \<or> (not_published [] \<and> p' = p)
              else [] = ([] :: event list) \<and> p' = p"
          using False res(3) by simp
        ultimately show ?thesis using res(1,2) ext by blast
      next
        case True
        obtain res s4 where pub: "publish_to_wordpress C eng t b m ?s3 = (res, s4)"
          by fastforce
        obtain q s5 where rep: "report_publish ''WordPress ID: '' res p s4 = (q, s5)"
          by fastforce
        from publish_report_shape[OF pub rep] obtain pevs where
          t5: "trace s5 = trace ?s3 @ pevs"
          and sh: "(published t pevs \<and> q = p + 1) \<or> (not_published pevs \<and> q = p)"
          by blast
        from assms a' gen ext save f' True pub rep
        have res: "raised = None" "g' = g + 1" "p' = q"
          "s' = emit (Print (replicate 50 (CHR ''-''))) s5"
          by (auto simp: batch_body_def Let_def)
        have "trace s' = trace s @ ([Print_info (''Generating: '' @ title t),
          Completion t (Inr raw), Write ?path (front_matter eng t m date @ b) (Inr ()),
          Print_success (''Markdown: '' @ ?path)] @ pevs @ [Print (replicate 50 (CHR ''-''))])"
          using res(4) t3 t5 by simp
        moreover have "if wordpress_enabled eng
              then (published t pevs \<and> p' = p + 1) \<or> (not_published pevs \<and> p' = p)
              else pevs = [] \<and> p' = p"
          using True sh res(3) by simp
        ultimately show ?thesis using res(1,2) ext by blast
      qed
    qed
  qed
qed




text \<open>Counting the failed calls of one topic.\<close>

lemma count_events_calls:
  assumes "\<And>ev. P ev \<Longrightarrow> is_call ev"
  shows "count_events P evs = count_events P (filter is_call evs)"
proof -
  have "filter P (filter is_call evs) = filter P evs"
    using assms by (induction evs) auto
  then show ?thesis by (simp add: count_events_def)
qed

lemma is_completion_failed_call: "is_completion_failed ev \<Longrightarrow> is_call ev"
  by (cases ev rule: is_completion_failed.cases) auto

lemma is_write_failed_call: "is_write_failed ev \<Longrightarrow> is_call ev"
  by (cases ev rule: is_write_failed.cases) auto

lemma is_new_post_failed_call: "is_new_post_failed ev \<Longrightarrow> is_call ev"
  by (cases ev rule: is_new_post_failed.cases) auto

lemma count_new_post_outcomes:
  "count_events is_post_ok evs + count_events is_new_post_failed evs
     \<le> count_events is_new_post_call evs"
proof (induction evs)
  case Nil
  then show ?case by simp
next
  case (Cons ev evs)
  have "(if is_post_ok ev then 1 else 0) + (if is_new_post_failed ev then 1 else 0)
      \<le> (if is_new_post_call ev then 1 else (0::nat))"
  proof (cases ev)
    case (New_post post r)
    then show ?thesis by (cases r) auto
  qed auto
  with Cons show ?case by (simp del: One_nat_def) 
qed

lemma batch_body_stages:
  assumes "batch_body C eng t (g, p) s = ((raised, (g', p')), s')"
  shows "(raised \<noteq> None \<longleftrightarrow>
            0 < count_events is_completion_failed (new_events s s')
                + count_events is_write_failed (new_events s s'))
     \<and> (raised \<noteq> None \<longrightarrow> g' = g \<and> p' = p)
     \<and> (0 < count_events is_new_post_failed (new_events s s')
          \<longrightarrow> raised = None \<and> g' = g + 1 \<and> p' = p)"
proof -
  note cf = count_events_calls[of is_completion_failed, OF is_completion_failed_call]
  note wf = count_events_calls[of is_write_failed, OF is_write_failed_call]
  note nf = count_events_calls[of is_new_post_failed, OF is_new_post_failed_call]
  from batch_body_shape[OF assms] obtain evs where tr: "trace s' = trace s @ evs"
    and sh: "(\<exists>e. evs = [Print_info (''Generating: '' @ title t), Completion t (Inl e)]
          \<and> raised = Some (Exception (''AI generation failed: '' @ error_message e))
          \<and> g' = g \<and> p' = p)
     \<or> (\<exists>raw m b stamp date e.
          extract_meta_description (strip raw) = Inr (m, b)
          \<and> evs = [Print_info (''Generating: '' @ title t), Completion t (Inr raw),
                    Write (path_join (output_dir eng) (post_filename stamp (title t)))
                      (front_matter eng t m date @ b) (Inl e)]
          \<and> raised = Some (Exception (''Failed to save markdown file: '' @ error_message e))
          \<and> g' = g \<and> p' = p)
     \<or> (\<exists>raw m b stamp date pub.
          extract_meta_description (strip raw) = Inr (m, b)
          \<and> evs = [Print_info (''Generating: '' @ title t), Completion t (Inr raw),
                    Write (path_join (output_dir eng) (post_filename stamp (title t)))
                      (front_matter eng t m date @ b) (Inr ()),
                    Print_success (''Markdown: ''
                      @ path_join (output_dir eng) (post_filename stamp (title t)))]
                   @ pub @ [Print (replicate 50 (CHR ''-''))]
          \<and> raised = None \<and> g' = g + 1
          \<and> (if wordpress_enabled eng
              then (published t pub \<and> p' = p + 1) \<or> (not_published pub \<and> p' = p)
              else pub = [] \<and> p' = p))"
    by blast
  have ne: "new_events s s' = evs" using tr by (rule new_events_append)
  from sh consider
      (gen) e where "evs = [Print_info (''Generating: '' @ title t), Completion t (Inl e)]"
        "raised \<noteq> None" "g' = g" "p' = p"
    | (wr) path written e raw where
        "evs = [Print_info (''Generating: '' @ title t), Completion t (Inr raw),
                Write path written (Inl e)]"
        "raised \<noteq> None" "g' = g" "p' = p"
    | (ok) raw path written pub where
        "evs = [Print_info (''Generating: '' @ title t), Completion t (Inr raw),
                    Write path written (Inr ()), Print_success (''Markdown: '' @ path)]
                   @ pub @ [Print (replicate 50 (CHR ''-''))]"
        "raised = None" "g' = g + 1"
        "(\<exists>post i. filter is_call pub = [New_post post (Inr i)])
          \<or> (p' = p \<and> (filter is_call pub = []
                       \<or> (\<exists>post r. filter is_call pub = [New_post post r])))"
    by (auto split: if_splits)
  then show ?thesis
  proof cases
    case gen
    then show ?thesis unfolding ne by simp
  next
    case wr
    then show ?thesis unfolding ne by simp
  next
    case ok
    from ok(4) have c: "count_events is_completion_failed pub = 0"
      by (subst cf) auto
    from ok(4) have w: "count_events is_write_failed pub = 0"
      by (subst wf) auto
    from ok(4) have n: "0 < count_events is_new_post_failed pub \<longrightarrow> p' = p"
      by (subst nf) auto
    from ok(1,2,3) c w n show ?thesis unfolding ne by simp
  qed
qed

section \<open>The written file\<close>





section \<open>Evaluating the scenario\<close>

text \<open>The scenario is evaluated with its texts left symbolic; only the parsing of the generated
  text is computed.\<close>

lemma extract_Text: "extract_meta_description ''Text'' = Inr (''Text'', ''Text'')"
  by code_simp

lemma strip_Text: "strip ''Text'' = ''Text''"
  by code_simp

lemmas run_defs = generate_all_blog_posts_def batch_body_def generate_ai_content_def
  save_blog_post_def call_clock_def call_completion_def call_write_def emit_def Let_def
  scenario_collaborators_def scenario_engine_def scenario_start_def scenario_topic_def
  extract_Text strip_Text generate_blog_post_def
  init_wordpress_client_def call_connect_def call_get_posts_def test_connection_def
  publish_to_wordpress_def report_publish_def

lemma strip_front_matter_Text: "strip_front_matter ''Text'' = Inr ''Text''"
  by code_simp

lemmas publish_defs = publishing_collaborators_def publishing_engine_def markdown_to_html_def
  create_post_def call_new_post_def strip_front_matter_Text


section \<open>Batch runs\<close>

text \<open>
  C4 (as amended). After any batch run the generator has been called for every topic of the
  sheet, in order, whatever failed on the way; the counter of markdown files is the number
  of successful writes and the counter of posts is the number of remote posts created with
  a true identifier; the markdown counter, the failed generations and the failed writes
  add up to the number of topics; and the last report prints the markdown counter. So
  with three topics, the generation of the second one raising and no write failing, the
  run reports 2 and the third topic is processed. For one topic, an exception leaves the
  body of the \<open>try\<close> exactly when the generation or the write raised, and then both
  counters are as they were. A call creating the remote post that raises does not leave
  the body: it is caught inside \<open>_publish_to_wordpress\<close>, after the markdown counter was
  incremented, so that topic counts as generated and not as published; over the run the
  published posts and the failed creations together are at most the markdown counter.
\<close>

theorem generate_all_blog_posts_counts:
  assumes "generate_all_blog_posts C eng s = ((generated_count, published_count), s')"
  shows "attempted (new_events s s') = sheet_data eng
     \<and> generated_count = count_events is_write_ok (new_events s s')
     \<and> published_count = count_events is_post_ok (new_events s s')
     \<and> generated_count + count_events is_completion_failed (new_events s s')
          + count_events is_write_failed (new_events s s') = length (sheet_data eng)
     \<and> published_count + count_events is_new_post_failed (new_events s s')
          \<le> generated_count
     \<and> Print_success (''Generated: '' @ str_nat generated_count @ ''/''
           @ str_nat (length (sheet_data eng)) @ '' markdown files'')
          \<in> set (new_events s s')
     \<and> (sheet_data eng = [t1, t2, t3]
          \<and> filter is_completion_failed (new_events s s') = [Completion t2 (Inl e)]
          \<and> count_events is_write_failed (new_events s s') = 0
          \<longrightarrow> generated_count = 2 \<and> t3 \<in> set (attempted (new_events s s')))
     \<and> (\<forall>t g p s0 raised g' p' s1.
          batch_body C eng t (g, p) s0 = ((raised, (g', p')), s1) \<longrightarrow>
            (raised \<noteq> None \<longleftrightarrow>
               0 < count_events is_completion_failed (new_events s0 s1)
                   + count_events is_write_failed (new_events s0 s1))
            \<and> (raised \<noteq> None \<longrightarrow> g' = g \<and> p' = p)
            \<and> (0 < count_events is_new_post_failed (new_events s0 s1)
                 \<longrightarrow> raised = None \<and> g' = g + 1 \<and> p' = p))"
proof -
  from generate_all_events[OF assms] obtain evs where
    tr: "trace s' = trace s @ evs" and a: "attempted evs = sheet_data eng"
    and g: "generated_count = count_events is_write_ok evs"
    and p: "published_count = count_events is_post_ok evs"
    and acc: "count_events is_write_ok evs + count_events is_completion_failed evs
         + count_events is_write_failed evs = length (sheet_data eng)"
    and np: "count_events is_new_post_call evs \<le> count_events is_write_ok evs"
    and msg: "Print_success (''Generated: '' @ str_nat generated_count @ ''/''
           @ str_nat (length (sheet_data eng)) @ '' markdown files'') \<in> set evs"
    by blast
  have ne: "new_events s s' = evs" using tr by (rule new_events_append)
  have scen: "generated_count = 2 \<and> t3 \<in> set (attempted evs)"
    if "sheet_data eng = [t1, t2, t3]"
      and "filter is_completion_failed evs = [Completion t2 (Inl e)]"
      and "count_events is_write_failed evs = 0"
  proof -
    from that(2) have "count_events is_completion_failed evs = 1"
      by (simp add: count_events_def)
    with acc that(1,3) g a show ?thesis by simp
  qed
  have pf: "published_count + count_events is_new_post_failed evs \<le> generated_count"
    using count_new_post_outcomes[of evs] np g p by simp
  have acc': "generated_count + count_events is_completion_failed evs
          + count_events is_write_failed evs = length (sheet_data eng)"
    using acc g by simp
  have scen': "sheet_data eng = [t1, t2, t3]
          \<and> filter is_completion_failed evs = [Completion t2 (Inl e)]
          \<and> count_events is_write_failed evs = 0
          \<longrightarrow> generated_count = 2 \<and> t3 \<in> set (attempted evs)"
    using scen by blast
  have stages: "\<forall>t g p s0 raised g' p' s1.
          batch_body C eng t (g, p) s0 = ((raised, (g', p')), s1) \<longrightarrow>
            (raised \<noteq> None \<longleftrightarrow>
               0 < count_events is_completion_failed (new_events s0 s1)
                   + count_events is_write_failed (new_events s0 s1))
            \<and> (raised \<noteq> None \<longrightarrow> g' = g \<and> p' = p)
            \<and> (0 < count_events is_new_post_failed (new_events s0 s1)
                 \<longrightarrow> raised = None \<and> g' = g + 1 \<and> p' = p)"
    by (intro allI impI) (rule batch_body_stages)
  show ?thesis
    unfolding ne by (intro conjI a g p acc' pf msg scen' stages)
qed

text \<open>The scenario of the claim with publishing enabled: three topics, the remote post of
  the first one fails, the generation of the second one raises, the third one is written
  and published.\<close>

theorem generate_all_blog_posts_counts_witness:
  "fst (generate_all_blog_posts (publishing_collaborators False)
         (publishing_engine [scenario_topic 1, scenario_topic 2, scenario_topic 3])
         scenario_start) = (2, 1)
   \<and> attempted (new_events scenario_start
        (snd (generate_all_blog_posts (publishing_collaborators False)
          (publishing_engine [scenario_topic 1, scenario_topic 2, scenario_topic 3])
          scenario_start)))
       = [scenario_topic 1, scenario_topic 2, scenario_topic 3]
   \<and> filter is_completion_failed (new_events scenario_start
        (snd (generate_all_blog_posts (publishing_collaborators False)
          (publishing_engine [scenario_topic 1, scenario_topic 2, scenario_topic 3])
          scenario_start)))
       = [Completion (scenario_topic 2) (Inl (Exception ''timeout''))]
   \<and> count_events is_write_failed (new_events scenario_start
        (snd (generate_all_blog_posts (publishing_collaborators False)
          (publishing_engine [scenario_topic 1, scenario_topic 2, scenario_topic 3])
          scenario_start))) = 0
   \<and> count_events is_new_post_failed (new_events scenario_start
        (snd (generate_all_blog_posts (publishing_collaborators False)
          (publishing_engine [scenario_topic 1, scenario_topic 2, scenario_topic 3])
          scenario_start))) = 1
   \<and> count_events is_new_post_failed (new_events scenario_start
        (snd (batch_body (publishing_collaborators False)
          (publishing_engine [scenario_topic 1, scenario_topic 2, scenario_topic 3])
          (scenario_topic 1) (0, 0) scenario_start))) = 1
   \<and> fst (batch_body (publishing_collaborators False)
          (publishing_engine [scenario_topic 1, scenario_topic 2, scenario_topic 3])
          (scenario_topic 1) (0, 0) scenario_start) = (None, (1, 0))"
proof -
  let ?C = "publishing_collaborators False"
  let ?E = "publishing_engine [scenario_topic 1, scenario_topic 2, scenario_topic 3]"
  define r where "r = generate_all_blog_posts ?C ?E scenario_start"
  define b where "b = batch_body ?C ?E (scenario_topic 1) (0, 0) scenario_start"
  have run: "generate_all_blog_posts ?C ?E scenario_start = ((fst (fst r), snd (fst r)), snd r)"
    by (simp add: r_def)
  have body: "batch_body ?C ?E (scenario_topic 1) (0, 0) scenario_start
      = ((fst (fst b), (fst (snd (fst b)), snd (snd (fst b)))), snd b)"
    by (simp add: b_def)
  have sd: "sheet_data ?E = [scenario_topic 1, scenario_topic 2, scenario_topic 3]"
    by (simp add: publishing_engine_def scenario_engine_def)
  have f: "filter is_completion_failed (new_events scenario_start (snd r))
      = [Completion (scenario_topic 2) (Inl (Exception ''timeout''))]"
    unfolding r_def by (simp add: run_defs publish_defs new_events_def)
  have w: "count_events is_write_failed (new_events scenario_start (snd r)) = 0"
    unfolding r_def by (simp add: run_defs publish_defs new_events_def)
  have p: "count_events is_post_ok (new_events scenario_start (snd r)) = 1"
    unfolding r_def by (simp add: run_defs publish_defs new_events_def)
  have n: "count_events is_new_post_failed (new_events scenario_start (snd r)) = 1"
    unfolding r_def by (simp add: run_defs publish_defs new_events_def)
  have nb: "count_events is_new_post_failed (new_events scenario_start (snd b)) = 1"
    unfolding b_def by (simp add: run_defs publish_defs new_events_def)
  note T = generate_all_blog_posts_counts[OF run,
      of "scenario_topic 1" "scenario_topic 2" "scenario_topic 3" "Exception ''timeout''"]
  from T sd f w have "fst (fst r) = 2" by blast
  moreover from T p have "snd (fst r) = 1" by simp
  moreover from T sd have "attempted (new_events scenario_start (snd r))
      = [scenario_topic 1, scenario_topic 2, scenario_topic 3]" by simp
  moreover from T body nb have "fst (fst b) = None \<and> fst (snd (fst b)) = 0 + 1
      \<and> snd (snd (fst b)) = 0"
    by (metis zero_less_one)
  ultimately show ?thesis using f w n nb unfolding r_def b_def by (simp add: prod_eq_iff)
qed

text \<open>
  The claim as stated fails on a run over one topic whose remote post cannot be created:
  an exception was raised at the publish stage, and the markdown counter of that topic
  was incremented all the same.
\<close>

theorem publish_failure_counted_counterexample:
  "fst (generate_all_blog_posts (publishing_collaborators False)
         (publishing_engine [scenario_topic 1]) scenario_start) = (1, 0)
   \<and> count_events is_new_post_failed (new_events scenario_start
        (snd (generate_all_blog_posts (publishing_collaborators False)
          (publishing_engine [scenario_topic 1]) scenario_start))) = 1
   \<and> Print_error ''WordPress publishing error: Failed to create WordPress post: fault''
        \<in> set (new_events scenario_start
        (snd (generate_all_blog_posts (publishing_collaborators False)
          (publishing_engine [scenario_topic 1]) scenario_start)))"
  by (simp add: run_defs publish_defs new_events_def)

section \<open>Artifacts of a batch run\<close>




section \<open>The connectivity probe\<close>





end
